theory Spec2Isabelle
  imports Main "HOL-Library.Word" "HOL-Library.Stream" "HOL-Library.Sublist"
begin

unbundle bit_operations_syntax

section \<open>Data model\<close>

text \<open>
  Go's \<^verbatim>\<open>byte\<close> is an 8-bit word, \<^verbatim>\<open>uint32\<close> a 32-bit word. A Go string and a
  \<^verbatim>\<open>[]byte\<close> are both byte sequences; string literals of the source are written
  \<open>str ''...''\<close>. Port names and the phase texts of wrapped errors stay HOL strings.
\<close>

type_synonym byte = "8 word"
type_synonym uint32 = "32 word"

definition str :: "string \<Rightarrow> byte list" where
  "str s = map of_char s"

definition CRLF :: "byte list" where
  "CRLF = [13, 10]"

subsection \<open>Errors and results\<close>

text \<open>
  The three sentinel errors of the package carry the text that \<^verbatim>\<open>fmt.Errorf("%w: ...")\<close>
  appends to them; \<open>Wrap\<close> is \<^verbatim>\<open>fmt.Errorf("<phase>: %w", err)\<close>. The two parse errors of
  the MySQL driver are plain \<^verbatim>\<open>fmt.Errorf\<close> values that wrap nothing.
\<close>

datatype io_error = EOF | ErrUnexpectedEOF | ConnError

datatype ctx_error = Canceled | DeadlineExceeded

datatype error =
    ErrStartTLSNotSupported "byte list"
  | ErrInvalidResponse "byte list"
  | ErrUnsupportedProtocol string
  | IOError io_error
  | CtxError ctx_error
  | UnsupportedProtocolVersion byte
  | PacketTooShort
  | Wrap string error

text \<open>
  A Go function returning \<^verbatim>\<open>(v, error)\<close> either returns a value, returns an error, or
  panics at run time (an index out of range); the panic is not a returned error.
\<close>

datatype 'a res = Ok 'a | Err error | Panics string

section \<open>The MySQL handshake packet\<close>

definition clientSSL :: uint32 where "clientSSL = 0x800"
definition clientProtocol41 :: uint32 where "clientProtocol41 = 0x00000200"
definition clientSecureConn :: uint32 where "clientSecureConn = 0x00008000"
definition mysqlProtocolVersion :: byte where "mysqlProtocolVersion = 10"
definition maxMySQLPacketSize :: uint32 where "maxMySQLPacketSize = 16777215"
definition utf8GeneralCI :: byte where "utf8GeneralCI = 33"

text \<open>The loop \<^verbatim>\<open>for pos < len(body) && body[pos] != 0 { pos++ }\<close>, returning the final \<open>pos\<close>.\<close>

function skipToNull :: "byte list \<Rightarrow> nat \<Rightarrow> nat" where
  "skipToNull body pos =
     (if pos < length body \<and> body ! pos \<noteq> 0 then skipToNull body (pos + 1) else pos)"
  by pat_completeness auto
termination
  by (relation "measure (\<lambda>(body, pos). length body - pos)") auto

declare skipToNull.simps [simp del]

text \<open>
  \<^verbatim>\<open>parseHandshakePacket\<close>. The guard is \<^verbatim>\<open>len(body) == 0 || body[0] != mysqlProtocolVersion\<close>
  and the error it builds formats \<^verbatim>\<open>body[0]\<close>: on an empty body that index expression panics
  before any error value exists.
\<close>

definition parseHandshakePacket :: "byte list \<Rightarrow> uint32 res" where
  "parseHandshakePacket body =
     (if length body = 0 \<or> body ! 0 \<noteq> mysqlProtocolVersion then
        (if 0 < length body then Err (UnsupportedProtocolVersion (body ! 0))
         else Panics ''index out of range [0] with length 0'')
      else
        let pos = 1;
            pos = skipToNull body pos;
            pos = pos + 1;
            pos = pos + 4;
            pos = pos + 8;
            pos = skipToNull body pos;
            pos = pos + 1;
            pos = pos + 1
        in if pos + 2 > length body then Err PacketTooShort
           else Ok (ucast (body ! pos) OR push_bit 8 (ucast (body ! (pos + 1)))))"

text \<open>
  \<^verbatim>\<open>createSSLRequestPacket\<close>: a zeroed 36-byte slice, assigned index by index.
  \<^verbatim>\<open>byte(x)\<close> keeps the low 8 bits.
\<close>

definition createSSLRequestPacket :: "byte list" where
  "createSSLRequestPacket =
     (let clientFlags = clientSSL OR clientProtocol41 OR clientSecureConn;
          packet = replicate (4 + 32) (0 :: byte);
          packet = packet[0 := 32];
          packet = packet[3 := 1];
          packet = packet[4 := ucast clientFlags];
          packet = packet[5 := ucast (drop_bit 8 clientFlags)];
          packet = packet[6 := ucast (drop_bit 16 clientFlags)];
          packet = packet[7 := ucast (drop_bit 24 clientFlags)];
          maxSize = maxMySQLPacketSize;
          packet = packet[8 := ucast maxSize];
          packet = packet[9 := ucast (drop_bit 8 maxSize)];
          packet = packet[10 := ucast (drop_bit 16 maxSize)];
          packet = packet[11 := ucast (drop_bit 24 maxSize)];
          packet = packet[12 := utf8GeneralCI]
      in packet)"

subsection \<open>The layout of the handshake body, as the specification words it\<close>

text \<open>
  The length of the null-terminated field that starts at index \<open>i\<close> (without its
  terminator), the offset of the capability flags, and a 16-bit little-endian number.
\<close>

definition fieldLength :: "byte list \<Rightarrow> nat \<Rightarrow> nat" where
  "fieldLength body i = length (takeWhile (\<lambda>b. b \<noteq> 0) (drop i body))"

definition capabilityOffset :: "byte list \<Rightarrow> nat" where
  "capabilityOffset body =
     (let afterVersion = 1 + fieldLength body 1 + 1;
          afterAuth = afterVersion + 4 + 8
      in afterAuth + fieldLength body afterAuth + 2)"

definition littleEndian16 :: "byte \<Rightarrow> byte \<Rightarrow> uint32" where
  "littleEndian16 lo hi = of_nat (unat lo + 256 * unat hi)"

section \<open>The connection and its buffered reader and writer\<close>

text \<open>
  What the peer does is a stream of events, one for each point at which the client asks the
  connection for bytes: a non-empty segment of bytes that is there to be read, the end of
  the stream, a connection error, or \<open>Stall\<close>: nothing arrives any more (not before the
  caller's context is done, if it ever is). A \<^verbatim>\<open>Read\<close> that takes only part of a segment
  leaves the rest to the next \<^verbatim>\<open>Read\<close>. The end of the stream, an error and a stall
  stay: every later read meets them again.
  \<open>sent\<close> is what the connection has accepted from the client; a connection that is not
  \<open>writable\<close> fails every \<^verbatim>\<open>Write\<close>.
\<close>

datatype event = Seg byte "byte list" | Eof | Reset | Stall

record conn =
  incoming :: "event stream"
  sent :: "byte list"
  writable :: bool

text \<open>
  \<^verbatim>\<open>bufio.NewReadWriter(bufio.NewReader(conn), bufio.NewWriter(conn))\<close>: the connection
  with the unread bytes of the reader's buffer, the unflushed bytes of the writer's buffer
  and the writer's sticky error. Both buffers hold 4096 bytes.
\<close>

record rw = conn +
  rbuf :: "byte list"
  wbuf :: "byte list"
  werr :: "io_error option"

definition bufSize :: nat where
  "bufSize = 4096"

definition NewReadWriter :: "conn \<Rightarrow> rw" where
  "NewReadWriter c =
     \<lparr>incoming = incoming c, sent = sent c, writable = writable c,
      rbuf = [], wbuf = [], werr = None\<rparr>"

definition connOf :: "rw \<Rightarrow> conn" where
  "connOf r = \<lparr>incoming = incoming r, sent = sent r, writable = writable r\<rparr>"

datatype rd = Got "byte list" | Failed io_error | Blocked

fun unread :: "byte list \<Rightarrow> event stream \<Rightarrow> event stream" where
  "unread [] s = s"
| "unread (b # bs) s = Seg b bs ## s"

text \<open>\<^verbatim>\<open>conn.Read(p)\<close> with \<open>len(p) = n\<close>: at most \<open>n\<close> bytes of the segment at hand.\<close>

definition connRead :: "nat \<Rightarrow> event stream \<Rightarrow> rd \<times> event stream" where
  "connRead n s =
     (case shd s of
        Seg b bs \<Rightarrow> (Got (take n (b # bs)), unread (drop n (b # bs)) (stl s))
      | Eof \<Rightarrow> (Failed EOF, s)
      | Reset \<Rightarrow> (Failed ConnError, s)
      | Stall \<Rightarrow> (Blocked, s))"

definition Buffered :: "rw \<Rightarrow> nat" where
  "Buffered r = length (rbuf r)"

text \<open>
  \<^verbatim>\<open>bufio.Reader.Read(p)\<close> with \<open>len(p) = n\<close>: from the buffer when it holds bytes; with an
  empty buffer, one read of the connection, straight into \<open>p\<close> when \<open>p\<close> is at least as
  large as the buffer and through the buffer otherwise.
\<close>

definition Read :: "nat \<Rightarrow> rw \<Rightarrow> rd \<times> rw" where
  "Read n r =
     (if n = 0 then (Got [], r)
      else if rbuf r = [] then
        (if n \<ge> bufSize then
           (case connRead n (incoming r) of (res, s) \<Rightarrow> (res, r\<lparr>incoming := s\<rparr>))
         else
           (case connRead bufSize (incoming r) of
              (Got xs, s) \<Rightarrow> (Got (take n xs), r\<lparr>incoming := s, rbuf := drop n xs\<rparr>)
            | (Failed e, s) \<Rightarrow> (Failed e, r\<lparr>incoming := s\<rparr>)
            | (Blocked, s) \<Rightarrow> (Blocked, r\<lparr>incoming := s\<rparr>)))
      else (Got (take n (rbuf r)), r\<lparr>rbuf := drop n (rbuf r)\<rparr>))"

text \<open>\<^verbatim>\<open>bytes.IndexByte\<close>, with \<open>None\<close> for -1.\<close>

fun IndexByte :: "byte list \<Rightarrow> byte \<Rightarrow> nat option" where
  "IndexByte [] c = None"
| "IndexByte (b # bs) c =
     (if b = c then Some 0 else map_option Suc (IndexByte bs c))"

text \<open>
  \<^verbatim>\<open>bufio.Reader.ReadString(delim)\<close>, the loops of \<^verbatim>\<open>ReadSlice\<close> and \<^verbatim>\<open>collectFragments\<close>
  in one: search the buffer; a full buffer without the delimiter is taken whole as a fragment;
  otherwise the buffer is filled by one read of the connection. On an error the bytes read
  so far are returned with it. \<open>None\<close>: the call never returns (the peer stalls, or sends
  for ever without the delimiter).
\<close>

partial_function (option) ReadString_loop ::
  "byte \<Rightarrow> byte list \<Rightarrow> rw \<Rightarrow> ((byte list \<times> io_error option) \<times> rw) option" where
  "ReadString_loop delim frags r =
     (case IndexByte (rbuf r) delim of
        Some i \<Rightarrow>
          Some ((frags @ take (i + 1) (rbuf r), None), r\<lparr>rbuf := drop (i + 1) (rbuf r)\<rparr>)
      | None \<Rightarrow>
          if Buffered r \<ge> bufSize then ReadString_loop delim (frags @ rbuf r) (r\<lparr>rbuf := []\<rparr>)
          else
            (case connRead (bufSize - Buffered r) (incoming r) of
               (Got xs, s) \<Rightarrow> ReadString_loop delim frags (r\<lparr>incoming := s, rbuf := rbuf r @ xs\<rparr>)
             | (Failed e, s) \<Rightarrow> Some ((frags @ rbuf r, Some e), r\<lparr>incoming := s, rbuf := []\<rparr>)
             | (Blocked, s) \<Rightarrow> None))"

definition ReadString :: "byte \<Rightarrow> rw \<Rightarrow> ((byte list \<times> io_error option) \<times> rw) option" where
  "ReadString delim r = ReadString_loop delim [] r"

text \<open>
  \<^verbatim>\<open>io.ReadFull(r, buf)\<close> with \<open>len(buf) = n\<close>, the loop of \<^verbatim>\<open>io.ReadAtLeast\<close>: read until
  \<open>n\<close> bytes are there; an end of stream after some bytes is \<^verbatim>\<open>io.ErrUnexpectedEOF\<close>.
  \<open>None\<close>: the call never returns (the peer stalls). The loop terminates because every
  \<^verbatim>\<open>Read\<close> that does not fail yields at least one byte.
\<close>

function ReadFull_loop ::
  "nat \<Rightarrow> byte list \<Rightarrow> rw \<Rightarrow> ((byte list \<times> io_error option) \<times> rw) option" where
  "ReadFull_loop n got r =
     (if length got < n then
        (case Read (n - length got) r of
           (Got xs, r') \<Rightarrow> ReadFull_loop n (got @ xs) r'
         | (Failed e, r') \<Rightarrow>
             Some ((got, Some (if got \<noteq> [] \<and> e = EOF then ErrUnexpectedEOF else e)), r')
         | (Blocked, r') \<Rightarrow> None)
      else Some ((got, None), r))"
  by pat_completeness auto
termination
  by (relation "measure (\<lambda>(n, got, r). n - length got)")
     (auto simp: Read_def connRead_def neq_Nil_conv min_def
       split: if_splits event.splits prod.splits rd.splits)

declare ReadFull_loop.simps [simp del]

definition ReadFull :: "nat \<Rightarrow> rw \<Rightarrow> ((byte list \<times> io_error option) \<times> rw) option" where
  "ReadFull n r = ReadFull_loop n [] r"

text \<open>
  \<^verbatim>\<open>bufio.Writer\<close>. \<^verbatim>\<open>WriteString\<close> and \<^verbatim>\<open>Write\<close> fail with the sticky error if there is
  one and otherwise append to the buffer: the longest message of this package has 36 bytes
  and each one is flushed before the next is written, so the branch that flushes a full
  4096-byte buffer in the middle of a write is never taken. \<^verbatim>\<open>Flush\<close> hands the buffer to the
  connection in one \<^verbatim>\<open>Write\<close> and keeps the error of a failed one.
\<close>

definition WriteString :: "byte list \<Rightarrow> rw \<Rightarrow> io_error option \<times> rw" where
  "WriteString s w =
     (case werr w of
        Some e \<Rightarrow> (Some e, w)
      | None \<Rightarrow> (None, w\<lparr>wbuf := wbuf w @ s\<rparr>))"

definition Write :: "byte list \<Rightarrow> rw \<Rightarrow> io_error option \<times> rw" where
  "Write p w =
     (case werr w of
        Some e \<Rightarrow> (Some e, w)
      | None \<Rightarrow> (None, w\<lparr>wbuf := wbuf w @ p\<rparr>))"

definition Flush :: "rw \<Rightarrow> io_error option \<times> rw" where
  "Flush w =
     (case werr w of
        Some e \<Rightarrow> (Some e, w)
      | None \<Rightarrow>
          if wbuf w = [] then (None, w)
          else if writable w then (None, w\<lparr>sent := sent w @ wbuf w, wbuf := []\<rparr>)
          else (Some ConnError, w\<lparr>werr := Some ConnError\<rparr>))"

section \<open>Patterns and strings\<close>

text \<open>
  Every pattern the package compiles is \<^verbatim>\<open>^\<close> followed by literal characters
  (\<^verbatim>\<open>"^220 "\<close>, \<^verbatim>\<open>"^\\* "\<close>, \<^verbatim>\<open>"^a001 OK "\<close>, \<^verbatim>\<open>"^\\+OK "\<close>, \<^verbatim>\<open>"^234 "\<close>): the compiled
  pattern is that literal, and it matches the strings that begin with it.
\<close>

datatype regexp = StartsWith "byte list"

fun MatchString :: "regexp \<Rightarrow> byte list \<Rightarrow> bool" where
  "MatchString (StartsWith lit) s = prefix lit s"

definition HasPrefix :: "byte list \<Rightarrow> byte list \<Rightarrow> bool" where
  "HasPrefix s pre = prefix pre s"

text \<open>
  \<^verbatim>\<open>strings.TrimSpace\<close> removes the white-space characters at both ends of a string. In
  UTF-8 they are the six ASCII bytes tab, line feed, vertical tab, form feed, carriage
  return and space, and the encodings of U+0085, U+00A0, U+1680, U+2000 to U+200A, U+2028,
  U+2029, U+202F, U+205F and U+3000. All the bytes of such an encoding after its first are
  continuation bytes, so Go's decoder, forwards from the start and backwards from the end,
  finds one of these characters exactly where the string begins or ends with one of these
  byte sequences.
\<close>

definition spaceRunes :: "byte list list" where
  "spaceRunes =
     [[0x09], [0x0A], [0x0B], [0x0C], [0x0D], [0x20],
      [0xC2, 0x85], [0xC2, 0xA0], [0xE1, 0x9A, 0x80],
      [0xE2, 0x80, 0x80], [0xE2, 0x80, 0x81], [0xE2, 0x80, 0x82], [0xE2, 0x80, 0x83],
      [0xE2, 0x80, 0x84], [0xE2, 0x80, 0x85], [0xE2, 0x80, 0x86], [0xE2, 0x80, 0x87],
      [0xE2, 0x80, 0x88], [0xE2, 0x80, 0x89], [0xE2, 0x80, 0x8A],
      [0xE2, 0x80, 0xA8], [0xE2, 0x80, 0xA9], [0xE2, 0x80, 0xAF], [0xE2, 0x81, 0x9F],
      [0xE3, 0x80, 0x80]]"

function trimLeft :: "byte list list \<Rightarrow> byte list \<Rightarrow> byte list" where
  "trimLeft runes s =
     (case find (\<lambda>q. q \<noteq> [] \<and> prefix q s) runes of
        Some q \<Rightarrow> trimLeft runes (drop (length q) s)
      | None \<Rightarrow> s)"
  by pat_completeness auto
termination
  by (relation "measure (\<lambda>(runes, s). length s)")
     (auto simp: find_Some_iff prefix_def)

declare trimLeft.simps [simp del]

definition TrimSpace :: "byte list \<Rightarrow> byte list" where
  "TrimSpace s = rev (trimLeft (map rev spaceRunes) (rev (trimLeft spaceRunes s)))"

section \<open>The cancellable line reader and the exchange primitives\<close>

text \<open>
  The context of a call: \<open>None\<close> is never done; \<open>Some e\<close> is done, with \<^verbatim>\<open>ctx.Err() = e\<close>,
  while a read that does not complete is pending.

  \<^verbatim>\<open>readLine\<close> starts \<^verbatim>\<open>ReadString('\n')\<close> and waits for its line, its error or
  the context, whichever comes first. A read that completes is taken to complete before
  the context is done; one that never completes loses to the context, if the context is ever
  done, and otherwise \<^verbatim>\<open>readLine\<close> never returns. The bytes returned along with a read error
  are dropped. After a cancellation the abandoned read still owns the reader; the state
  returned for that case is the one before the call.
\<close>

type_synonym Context = "ctx_error option"

definition readLine :: "Context \<Rightarrow> rw \<Rightarrow> (byte list res \<times> rw) option" where
  "readLine ctx r =
     (case ReadString 10 r of
        None \<Rightarrow> (case ctx of None \<Rightarrow> None | Some e \<Rightarrow> Some (Err (CtxError e), r))
      | Some ((line, Some e), r') \<Rightarrow> Some (Err (IOError e), r')
      | Some ((line, None), r') \<Rightarrow> Some (Ok line, r'))"

partial_function (option) expectGreeting ::
  "Context \<Rightarrow> rw \<Rightarrow> regexp \<Rightarrow> (unit res \<times> rw) option" where
  "expectGreeting ctx r pattern =
     (case readLine ctx r of
        None \<Rightarrow> None
      | Some (Err e, r') \<Rightarrow> Some (Err e, r')
      | Some (Panics m, r') \<Rightarrow> Some (Panics m, r')
      | Some (Ok line, r') \<Rightarrow>
          if MatchString pattern line then Some (Ok (), r')
          else expectGreeting ctx r' pattern)"

definition sendStartTLS ::
  "Context \<Rightarrow> rw \<Rightarrow> byte list \<Rightarrow> regexp \<Rightarrow> (unit res \<times> rw) option" where
  "sendStartTLS ctx r authMsg respPattern =
     (case WriteString authMsg r of
        (Some e, r) \<Rightarrow> Some (Err (IOError e), r)
      | (None, r) \<Rightarrow>
         (case Flush r of
            (Some e, r) \<Rightarrow> Some (Err (IOError e), r)
          | (None, r) \<Rightarrow>
             (case readLine ctx r of
                None \<Rightarrow> None
              | Some (Err e, r) \<Rightarrow> Some (Err e, r)
              | Some (Panics m, r) \<Rightarrow> Some (Panics m, r)
              | Some (Ok line, r) \<Rightarrow>
                  if \<not> MatchString respPattern line
                  then Some (Err (ErrStartTLSNotSupported (TrimSpace line)), r)
                  else Some (Ok (), r))))"

section \<open>The protocol drivers\<close>

record baseProtocol =
  name :: string
  greetMsg :: regexp
  authMsg :: "byte list"
  respMsg :: regexp

definition newBaseProtocol :: "string \<Rightarrow> regexp \<Rightarrow> byte list \<Rightarrow> regexp \<Rightarrow> baseProtocol" where
  "newBaseProtocol nm greetPattern auth respPattern =
     \<lparr>name = nm, greetMsg = greetPattern, authMsg = auth, respMsg = respPattern\<rparr>"

definition newSMTPProtocol :: baseProtocol where
  "newSMTPProtocol =
     newBaseProtocol ''smtp'' (StartsWith (str ''220 '')) (str ''STARTTLS'' @ CRLF)
       (StartsWith (str ''220 ''))"

definition newIMAPProtocol :: baseProtocol where
  "newIMAPProtocol =
     newBaseProtocol ''imap'' (StartsWith (str ''* '')) (str ''a001 STARTTLS'' @ CRLF)
       (StartsWith (str ''a001 OK ''))"

definition newPOP3Protocol :: baseProtocol where
  "newPOP3Protocol =
     newBaseProtocol ''pop3'' (StartsWith (str ''+OK '')) (str ''STLS'' @ CRLF)
       (StartsWith (str ''+OK ''))"

definition newFTPProtocol :: baseProtocol where
  "newFTPProtocol =
     newBaseProtocol ''ftp'' (StartsWith (str ''220 '')) (str ''AUTH TLS'' @ CRLF)
       (StartsWith (str ''234 ''))"

text \<open>
  \<open>wrapf phase\<close> is \<^verbatim>\<open>if err != nil { return fmt.Errorf("<phase>: %w", err) }\<close> applied to the
  outcome of a step, and \<open>andThen\<close> runs the next step when the one before returned no error.
\<close>

definition wrapf :: "string \<Rightarrow> ('a res \<times> rw) option \<Rightarrow> ('a res \<times> rw) option" where
  "wrapf phase x =
     (case x of
        None \<Rightarrow> None
      | Some (Err e, r) \<Rightarrow> Some (Err (Wrap phase e), r)
      | Some (Ok v, r) \<Rightarrow> Some (Ok v, r)
      | Some (Panics m, r) \<Rightarrow> Some (Panics m, r))"

definition andThen ::
  "('a res \<times> rw) option \<Rightarrow> ('a \<Rightarrow> rw \<Rightarrow> ('b res \<times> rw) option) \<Rightarrow> ('b res \<times> rw) option" where
  "andThen x f =
     (case x of
        None \<Rightarrow> None
      | Some (Err e, r) \<Rightarrow> Some (Err e, r)
      | Some (Panics m, r) \<Rightarrow> Some (Panics m, r)
      | Some (Ok v, r) \<Rightarrow> f v r)"

text \<open>The loop of \<^verbatim>\<open>sendEHLO\<close>, and \<^verbatim>\<open>sendEHLO\<close>.\<close>

partial_function (option) sendEHLO_loop :: "Context \<Rightarrow> rw \<Rightarrow> (unit res \<times> rw) option" where
  "sendEHLO_loop ctx r =
     (case readLine ctx r of
        None \<Rightarrow> None
      | Some (Err e, r') \<Rightarrow> Some (Err e, r')
      | Some (Panics m, r') \<Rightarrow> Some (Panics m, r')
      | Some (Ok line, r') \<Rightarrow>
          if \<not> HasPrefix line (str ''250'') then Some (Err (ErrInvalidResponse line), r')
          else if Buffered r' = 0 then Some (Ok (), r')
          else sendEHLO_loop ctx r')"

definition sendEHLO :: "Context \<Rightarrow> rw \<Rightarrow> (unit res \<times> rw) option" where
  "sendEHLO ctx r =
     (case WriteString (str ''EHLO tlstools.com'' @ CRLF) r of
        (Some e, r) \<Rightarrow> Some (Err (IOError e), r)
      | (None, r) \<Rightarrow>
         (case Flush r of
            (Some e, r) \<Rightarrow> Some (Err (IOError e), r)
          | (None, r) \<Rightarrow> sendEHLO_loop ctx r))"

definition smtp_Handshake :: "baseProtocol \<Rightarrow> Context \<Rightarrow> rw \<Rightarrow> (unit res \<times> rw) option" where
  "smtp_Handshake p ctx r =
     andThen (wrapf ''smtp: greeting failed'' (expectGreeting ctx r (greetMsg p))) (\<lambda>_ r.
     andThen (wrapf ''smtp: EHLO failed'' (sendEHLO ctx r)) (\<lambda>_ r.
     wrapf ''smtp: STARTTLS failed'' (sendStartTLS ctx r (authMsg p) (respMsg p))))"

definition imap_Handshake :: "baseProtocol \<Rightarrow> Context \<Rightarrow> rw \<Rightarrow> (unit res \<times> rw) option" where
  "imap_Handshake p ctx r =
     andThen (wrapf ''imap: greeting failed'' (expectGreeting ctx r (greetMsg p))) (\<lambda>_ r.
     wrapf ''imap: STARTTLS failed'' (sendStartTLS ctx r (authMsg p) (respMsg p)))"

definition pop3_Handshake :: "baseProtocol \<Rightarrow> Context \<Rightarrow> rw \<Rightarrow> (unit res \<times> rw) option" where
  "pop3_Handshake p ctx r =
     andThen (wrapf ''pop3: greeting failed'' (expectGreeting ctx r (greetMsg p))) (\<lambda>_ r.
     wrapf ''pop3: STARTTLS failed'' (sendStartTLS ctx r (authMsg p) (respMsg p)))"

definition ftp_Handshake :: "baseProtocol \<Rightarrow> Context \<Rightarrow> rw \<Rightarrow> (unit res \<times> rw) option" where
  "ftp_Handshake p ctx r =
     andThen (wrapf ''ftp: greeting failed'' (expectGreeting ctx r (greetMsg p))) (\<lambda>_ r.
     wrapf ''ftp: AUTH TLS failed'' (sendStartTLS ctx r (authMsg p) (respMsg p)))"

subsection \<open>The MySQL driver\<close>

definition readMySQLPacket :: "rw \<Rightarrow> (byte list res \<times> rw) option" where
  "readMySQLPacket r =
     (case ReadFull 4 r of
        None \<Rightarrow> None
      | Some ((header, Some e), r) \<Rightarrow>
          Some (Err (Wrap ''mysql: failed to read packet header'' (IOError e)), r)
      | Some ((header, None), r) \<Rightarrow>
          let len = unat (ucast (header ! 0) OR push_bit 8 (ucast (header ! 1))
                            OR push_bit 16 (ucast (header ! 2)) :: uint32)
          in (case ReadFull len r of
                None \<Rightarrow> None
              | Some ((body, Some e), r) \<Rightarrow>
                  Some (Err (Wrap ''mysql: failed to read packet body'' (IOError e)), r)
              | Some ((body, None), r) \<Rightarrow> Some (Ok body, r)))"

text \<open>The MySQL driver reads without the context: its \<^verbatim>\<open>ctx\<close> argument is unused.\<close>

definition mysql_Handshake :: "Context \<Rightarrow> rw \<Rightarrow> (unit res \<times> rw) option" where
  "mysql_Handshake ctx r =
     (case readMySQLPacket r of
        None \<Rightarrow> None
      | Some (Err e, r) \<Rightarrow> Some (Err e, r)
      | Some (Panics m, r) \<Rightarrow> Some (Panics m, r)
      | Some (Ok body, r) \<Rightarrow>
         (case parseHandshakePacket body of
            Err e \<Rightarrow> Some (Err e, r)
          | Panics m \<Rightarrow> Some (Panics m, r)
          | Ok capabilities \<Rightarrow>
              if capabilities AND clientSSL = 0
              then Some (Err (ErrStartTLSNotSupported (str ''MySQL server does not support SSL'')), r)
              else
                let sslRequest = createSSLRequestPacket
                in (case Write sslRequest r of
                      (Some e, r) \<Rightarrow>
                        Some (Err (Wrap ''mysql: failed to write SSL request'' (IOError e)), r)
                    | (None, r) \<Rightarrow>
                       (case Flush r of
                          (Some e, r) \<Rightarrow>
                            Some (Err (Wrap ''mysql: failed to flush SSL request'' (IOError e)), r)
                        | (None, r) \<Rightarrow> Some (Ok (), r)))))"

section \<open>The dispatcher\<close>

text \<open>The interface \<^verbatim>\<open>StartTLSProtocol\<close> with its five implementations, and the registry.\<close>

datatype StartTLSProtocol =
    SMTP baseProtocol
  | IMAP baseProtocol
  | POP3 baseProtocol
  | FTP baseProtocol
  | MySQL string

fun Handshake :: "StartTLSProtocol \<Rightarrow> Context \<Rightarrow> rw \<Rightarrow> (unit res \<times> rw) option" where
  "Handshake (SMTP p) ctx r = smtp_Handshake p ctx r"
| "Handshake (IMAP p) ctx r = imap_Handshake p ctx r"
| "Handshake (POP3 p) ctx r = pop3_Handshake p ctx r"
| "Handshake (FTP p) ctx r = ftp_Handshake p ctx r"
| "Handshake (MySQL nm) ctx r = mysql_Handshake ctx r"

definition newMySQLProtocol :: StartTLSProtocol where
  "newMySQLProtocol = MySQL ''mysql''"

definition protocols :: "string \<rightharpoonup> StartTLSProtocol" where
  "protocols =
     map_of
       [(''21'', FTP newFTPProtocol),
        (''25'', SMTP newSMTPProtocol),
        (''587'', SMTP newSMTPProtocol),
        (''110'', POP3 newPOP3Protocol),
        (''143'', IMAP newIMAPProtocol),
        (''3306'', newMySQLProtocol)]"

text \<open>
  \<^verbatim>\<open>StartTLS\<close>, with the connection as it is left when the call returns. The reader and the
  writer exist only on the path that found a driver.
\<close>

definition StartTLS :: "Context \<Rightarrow> conn \<Rightarrow> string \<Rightarrow> (unit res \<times> conn) option" where
  "StartTLS ctx c port =
     (case protocols port of
        None \<Rightarrow>
          if port \<in> set [''443'', ''465'', ''993'', ''995'', ''3389''] then Some (Ok (), c)
          else Some (Err (ErrUnsupportedProtocol port), c)
      | Some protocol \<Rightarrow>
          map_option (\<lambda>(res, r). (res, connOf r)) (Handshake protocol ctx (NewReadWriter c)))"

section \<open>Notions the properties are stated with\<close>

text \<open>
  \<open>linesRead ctx ok n r\<close> is the reader and writer after \<open>n\<close> further lines were read from
  \<open>r\<close>, each of them read without an error and accepted by \<open>ok\<close> together with the state its
  read left; \<open>None\<close> if the \<open>n\<close> reads do not go that way.
\<close>

fun linesRead :: "Context \<Rightarrow> (byte list \<Rightarrow> rw \<Rightarrow> bool) \<Rightarrow> nat \<Rightarrow> rw \<Rightarrow> rw option" where
  "linesRead ctx ok 0 r = Some r"
| "linesRead ctx ok (Suc n) r =
     (case readLine ctx r of
        Some (Ok line, r') \<Rightarrow> if ok line r' then linesRead ctx ok n r' else None
      | _ \<Rightarrow> None)"

text \<open>A line that does not match the greeting pattern; a capability line with more buffered after it.\<close>

definition noGreeting :: "regexp \<Rightarrow> byte list \<Rightarrow> rw \<Rightarrow> bool" where
  "noGreeting pattern line r \<longleftrightarrow> \<not> MatchString pattern line"

definition moreBuffered :: "byte list \<Rightarrow> rw \<Rightarrow> bool" where
  "moreBuffered line r \<longleftrightarrow> HasPrefix line (str ''250'') \<and> Buffered r \<noteq> 0"

definition ehloCommand :: "byte list" where
  "ehloCommand = str ''EHLO tlstools.com'' @ CRLF"

text \<open>
  The ways the greeting loop ends: after some lines that do not match, a line that matches
  is read, or a read fails.
\<close>

definition greetingEnds :: "Context \<Rightarrow> regexp \<Rightarrow> rw \<Rightarrow> unit res \<Rightarrow> rw \<Rightarrow> bool" where
  "greetingEnds ctx pattern r res r' \<longleftrightarrow>
     (\<exists>n r1. linesRead ctx (noGreeting pattern) n r = Some r1 \<and>
        ((\<exists>line. readLine ctx r1 = Some (Ok line, r') \<and> MatchString pattern line \<and> res = Ok ()) \<or>
         (\<exists>e. readLine ctx r1 = Some (Err e, r') \<and> res = Err e)))"

text \<open>The reader and writer once a command was written and flushed to a connection that takes it.\<close>

definition flushed :: "rw \<Rightarrow> byte list \<Rightarrow> rw" where
  "flushed r cmd = r\<lparr>sent := sent r @ wbuf r @ cmd, wbuf := []\<rparr>"

text \<open>
  What a reader has before it: \<open>peek n s\<close> is the next \<open>n\<close> bytes of the stream \<open>s\<close>, or, if
  the stream ends, fails or stalls before that, the bytes until then and the event that
  stops them; how the bytes are cut into segments does not show. \<open>pending n r\<close> is the same
  for a reader, whose buffered bytes come first.
\<close>

primrec peek :: "nat \<Rightarrow> event stream \<Rightarrow> byte list \<times> event option" where
  "peek 0 s = ([], None)"
| "peek (Suc n) s =
     (case shd s of
        Seg b bs \<Rightarrow> (case peek n (unread bs (stl s)) of (xs, t) \<Rightarrow> (b # xs, t))
      | Eof \<Rightarrow> ([], Some Eof)
      | Reset \<Rightarrow> ([], Some Reset)
      | Stall \<Rightarrow> ([], Some Stall))"

definition upcoming :: "rw \<Rightarrow> event stream" where
  "upcoming r = unread (rbuf r) (incoming r)"

definition pending :: "nat \<Rightarrow> rw \<Rightarrow> byte list \<times> event option" where
  "pending n r = peek n (upcoming r)"

text \<open>A 24-bit little-endian number.\<close>

definition littleEndian24 :: "byte \<Rightarrow> byte \<Rightarrow> byte \<Rightarrow> nat" where
  "littleEndian24 b0 b1 b2 = unat b0 + 256 * unat b1 + 65536 * unat b2"

text \<open>The four bytes of a 32-bit number, least significant first.\<close>

definition littleEndian32 :: "uint32 \<Rightarrow> byte list" where
  "littleEndian32 w = map (\<lambda>i. of_nat (unat w div 256 ^ i mod 256)) [0, 1, 2, 3]"

section \<open>Concrete exchanges\<close>

text \<open>A connection on which the peer stays silent, and one that delivers the given segments first.\<close>

definition silent :: "event stream" where
  "silent = sconst Stall"

fun segments :: "byte list list \<Rightarrow> event stream \<Rightarrow> event stream" where
  "segments [] s = s"
| "segments (x # xs) s = unread x (segments xs s)"

definition serving :: "byte list list \<Rightarrow> conn" where
  "serving xs = \<lparr>incoming = segments xs silent, sent = [], writable = True\<rparr>"

text \<open>A connection that delivers the given segments and then ends in the given way.\<close>

definition cutOff :: "event \<Rightarrow> byte list list \<Rightarrow> conn" where
  "cutOff ev xs = \<lparr>incoming = segments xs (sconst ev), sent = [], writable = True\<rparr>"

text \<open>A fresh reader and writer's state with the given input, sent bytes and reader buffer.\<close>

definition rwState :: "event stream \<Rightarrow> byte list \<Rightarrow> byte list \<Rightarrow> rw" where
  "rwState inc snt buf =
     \<lparr>incoming = inc, sent = snt, writable = True, rbuf = buf, wbuf = [], werr = None\<rparr>"

definition greeting220 :: "byte list" where
  "greeting220 = str ''220 test.test.test server'' @ CRLF"

definition banner :: "byte list" where
  "banner = str ''hello'' @ CRLF"

definition capabilityLine1 :: "byte list" where
  "capabilityLine1 = str ''250-test.test.test'' @ CRLF"

definition capabilityLine2 :: "byte list" where
  "capabilityLine2 = str ''250 STARTTLS'' @ CRLF"

definition noStartTLSLine :: "byte list" where
  "noStartTLSLine = str ''250 NO-STARTTLS'' @ CRLF"

definition refusal :: "byte list" where
  "refusal = str ''500 Not supported'' @ CRLF"

definition readyForTLS :: "byte list" where
  "readyForTLS = str ''220 ready for TLS'' @ CRLF"

text \<open>
  The server handshake packet of the package's MySQL test as it travels (a header announcing
  49 bytes, then the body), the 49 bytes that are read as its body, and the same with the
  encryption bit of the capability flags cleared.
\<close>

definition handshakePacket :: "byte \<Rightarrow> byte list" where
  "handshakePacket capsHigh =
     [0x31, 0x00, 0x00, 0x00, 0x0a] @ str ''5.7.0'' @ [0x00, 0x01, 0x02, 0x03, 0x04] @
     str ''12345678'' @ [0x00, 0x00, 0x00, capsHigh, 0x21, 0x02, 0x00, 0x00, 0x00, 0x08] @
     replicate 10 0x00 @ str ''mysql_native_password'' @ [0x00]"

definition handshakeBody :: "byte \<Rightarrow> byte list" where
  "handshakeBody capsHigh = take 49 (drop 4 (handshakePacket capsHigh))"

text \<open>
  The reader and writer after that packet, sent in one segment, was read: the 12 bytes
  beyond the announced 49 stay in the reader's buffer.
\<close>

definition afterHandshakePacket :: "byte \<Rightarrow> rw" where
  "afterHandshakePacket capsHigh =
     \<lparr>incoming = silent, sent = [], writable = True,
      rbuf = drop 53 (handshakePacket capsHigh), wbuf = [], werr = None\<rparr>"

section \<open>Properties of the MySQL packet parser\<close>

lemma skipToNull_eq: "skipToNull body pos = pos + fieldLength body pos"
proof (induction body pos rule: skipToNull.induct)
  case (1 body pos)
  show ?case
  proof (cases "pos < length body")
    case True
    then have d: "drop pos body = body ! pos # drop (Suc pos) body"
      by (simp add: Cons_nth_drop_Suc)
    show ?thesis
    proof (cases "body ! pos = 0")
      case True
      with \<open>pos < length body\<close> show ?thesis
        by (subst skipToNull.simps) (simp add: fieldLength_def d)
    next
      case False
      with \<open>pos < length body\<close> 1 show ?thesis
        by (subst skipToNull.simps) (simp add: fieldLength_def d)
    qed
  next
    case False
    then show ?thesis
      by (subst skipToNull.simps) (simp add: fieldLength_def)
  qed
qed

lemma littleEndian16_eq:
  "(ucast (lo::byte) OR push_bit 8 (ucast (hi::byte)) :: uint32) = littleEndian16 lo hi"
proof -
  have "(ucast lo :: uint32) AND push_bit 8 (ucast hi) = 0"
    by (rule bit_eqI) (auto simp: bit_simps dest: bit_imp_le_length)
  then have "(ucast lo OR push_bit 8 (ucast hi) :: uint32) = ucast lo + push_bit 8 (ucast hi)"
    by (simp add: disjunctive_add_eq_or)
  also have "\<dots> = littleEndian16 lo hi"
    by (simp add: littleEndian16_def push_bit_eq_mult)
  finally show ?thesis .
qed

text \<open>
  Claim C3, on the empty body. The parser is to answer every body whose first byte is not
  the version 10, the empty body included, with the error "unsupported protocol version".
  On the empty body it does not: the guard lets the empty body through to the error
  message, which formats \<^verbatim>\<open>body[0]\<close>, and the call panics with an index out of range.
\<close>

theorem parseHandshakePacket_empty_body_panics:
  "parseHandshakePacket [] = Panics ''index out of range [0] with length 0''"
  by (simp add: parseHandshakePacket_def)

text \<open>On a body that has a first byte other than 10 the error is returned, with that byte.\<close>

lemma parseHandshakePacket_other_version:
  "body \<noteq> [] \<Longrightarrow> body ! 0 \<noteq> mysqlProtocolVersion \<Longrightarrow>
   parseHandshakePacket body = Err (UnsupportedProtocolVersion (body ! 0))"
  by (simp add: parseHandshakePacket_def)

text \<open>
  Claim C4. For a body whose first byte is 10, the parser's position after its two scans and
  its fixed skips is the capability offset of the layout (the null-terminated version string
  from index 1 with its terminator, 4 + 8 bytes, a second null-terminated field, 2 bytes);
  with two bytes left at that offset it returns their 16-bit little-endian value, and
  otherwise the error "packet too short".
\<close>

theorem parseHandshakePacket_layout:
  "body \<noteq> [] \<Longrightarrow> body ! 0 = 10 \<Longrightarrow>
   parseHandshakePacket body =
     (if capabilityOffset body + 2 \<le> length body
      then Ok (littleEndian16 (body ! capabilityOffset body) (body ! (capabilityOffset body + 1)))
      else Err PacketTooShort)"
  by (simp add: parseHandshakePacket_def mysqlProtocolVersion_def skipToNull_eq
      capabilityOffset_def littleEndian16_eq Let_def add.commute add.left_commute
      not_le less_Suc_eq_le)

theorem parseHandshakePacket_layout_witness:
  "handshakeBody 8 \<noteq> [] \<and> handshakeBody 8 ! 0 = 10 \<and> capabilityOffset (handshakeBody 8) = 21 \<and>
   parseHandshakePacket (handshakeBody 8) = Ok 0x800"
  using parseHandshakePacket_layout [of "handshakeBody 8"]
  by (simp add: handshakeBody_def handshakePacket_def str_def capabilityOffset_def
      fieldLength_def littleEndian16_def)

section \<open>Properties of the dispatcher\<close>

text \<open>
  Claim C1. On the ports 21, 25, 587, 110, 143 and 3306 \<open>StartTLS\<close> returns what the
  handshake of the FTP, SMTP, SMTP, POP3, IMAP and MySQL driver returns on a fresh buffered
  reader and writer of the connection. On 443, 465, 993, 995 and 3389 it returns success and
  on any other port the unsupported-protocol error with the port, and in both cases the
  connection is as it was: nothing was read from it and nothing written to it.
\<close>

theorem StartTLS_dispatch:
  "StartTLS ctx c ''21'' =
     map_option (\<lambda>(res, r). (res, connOf r)) (ftp_Handshake newFTPProtocol ctx (NewReadWriter c)) \<and>
   StartTLS ctx c ''25'' =
     map_option (\<lambda>(res, r). (res, connOf r)) (smtp_Handshake newSMTPProtocol ctx (NewReadWriter c)) \<and>
   StartTLS ctx c ''587'' =
     map_option (\<lambda>(res, r). (res, connOf r)) (smtp_Handshake newSMTPProtocol ctx (NewReadWriter c)) \<and>
   StartTLS ctx c ''110'' =
     map_option (\<lambda>(res, r). (res, connOf r)) (pop3_Handshake newPOP3Protocol ctx (NewReadWriter c)) \<and>
   StartTLS ctx c ''143'' =
     map_option (\<lambda>(res, r). (res, connOf r)) (imap_Handshake newIMAPProtocol ctx (NewReadWriter c)) \<and>
   StartTLS ctx c ''3306'' =
     map_option (\<lambda>(res, r). (res, connOf r)) (mysql_Handshake ctx (NewReadWriter c)) \<and>
   (port \<in> {''443'', ''465'', ''993'', ''995'', ''3389''} \<longrightarrow> StartTLS ctx c port = Some (Ok (), c)) \<and>
   (port \<notin> {''21'', ''25'', ''587'', ''110'', ''143'', ''3306'',
              ''443'', ''465'', ''993'', ''995'', ''3389''} \<longrightarrow>
      StartTLS ctx c port = Some (Err (ErrUnsupportedProtocol port), c))"
  by (auto simp: StartTLS_def protocols_def newMySQLProtocol_def)

theorem StartTLS_dispatch_witness:
  "''993'' \<in> {''443'', ''465'', ''993'', ''995'', ''3389''} \<and>
   StartTLS None (serving []) ''993'' = Some (Ok (), serving []) \<and>
   ''1234'' \<notin> {''21'', ''25'', ''587'', ''110'', ''143'', ''3306'',
                ''443'', ''465'', ''993'', ''995'', ''3389''} \<and>
   StartTLS None (serving []) ''1234'' = Some (Err (ErrUnsupportedProtocol ''1234''), serving [])"
  using StartTLS_dispatch [of None "serving []" "''993''"]
    StartTLS_dispatch [of None "serving []" "''1234''"]
  by simp

section \<open>Properties of the MySQL driver\<close>

text \<open>Reading leaves the writing side of the connection alone.\<close>

lemma Read_frame:
  "Read n r = (x, r') \<Longrightarrow>
   sent r' = sent r \<and> writable r' = writable r \<and> wbuf r' = wbuf r \<and> werr r' = werr r"
  by (auto simp: Read_def split: if_splits prod.splits rd.splits)

lemma ReadFull_loop_frame:
  "ReadFull_loop n got r = Some (x, r') \<Longrightarrow>
   sent r' = sent r \<and> writable r' = writable r \<and> wbuf r' = wbuf r \<and> werr r' = werr r"
proof (induction n got r rule: ReadFull_loop.induct)
  case (1 n got r)
  show ?case
  proof (cases "length got < n")
    case False
    with "1.prems" show ?thesis
      by (simp add: ReadFull_loop.simps)
  next
    case True
    obtain y r1 where rd: "Read (n - length got) r = (y, r1)"
      by (cases "Read (n - length got) r")
    note fr = Read_frame [OF rd]
    show ?thesis
    proof (cases y)
      case (Got xs)
      with True rd "1.prems" have "ReadFull_loop n (got @ xs) r1 = Some (x, r')"
        by (simp add: ReadFull_loop.simps [of n got r])
      with "1.IH" [OF True rd [symmetric] Got] fr show ?thesis
        by simp
    next
      case (Failed e)
      with True rd "1.prems" fr show ?thesis
        by (auto simp: ReadFull_loop.simps [of n got r])
    next
      case Blocked
      with True rd "1.prems" show ?thesis
        by (simp add: ReadFull_loop.simps [of n got r])
    qed
  qed
qed

lemma readMySQLPacket_frame:
  "readMySQLPacket r = Some (x, r') \<Longrightarrow>
   sent r' = sent r \<and> writable r' = writable r \<and> wbuf r' = wbuf r \<and> werr r' = werr r"
  by (auto simp: readMySQLPacket_def ReadFull_def Let_def
      split: option.splits prod.splits dest!: ReadFull_loop_frame)

lemma createSSLRequestPacket_explicit:
  "createSSLRequestPacket =
     [32, 0, 0, 1, 0x00, 0x8A, 0x00, 0x00, 0xFF, 0xFF, 0xFF, 0x00, 33] @ replicate 23 0"
  by code_simp

lemma littleEndian32_clientFlags:
  "littleEndian32 (clientSSL OR clientProtocol41 OR clientSecureConn) = [0x00, 0x8A, 0x00, 0x00]"
  by (simp add: littleEndian32_def clientSSL_def clientProtocol41_def clientSecureConn_def)

lemma littleEndian32_maxSize: "littleEndian32 16777215 = [0xFF, 0xFF, 0xFF, 0x00]"
  by (simp add: littleEndian32_def)

lemma createSSLRequestPacket_bytes:
  "createSSLRequestPacket =
     [32, 0, 0, 1] @ littleEndian32 (clientSSL OR clientProtocol41 OR clientSecureConn) @
     littleEndian32 16777215 @ [33] @ replicate 23 0"
  by (simp only: createSSLRequestPacket_explicit littleEndian32_clientFlags
      littleEndian32_maxSize append_Cons append_Nil)

lemma createSSLRequestPacket_length: "length createSSLRequestPacket = 36"
  by (simp add: createSSLRequestPacket_explicit)

text \<open>
  Claim C2. Let the driver have read a packet body and parsed capability flags from it, on a
  reader and writer with nothing unflushed and a connection that accepts what is written.
  With the bit 0x800 set in the flags, the handshake returns success, and what it leaves
  differs from the state after the packet was read only in the 36 bytes now sent: the header
  32, 0, 0, 1, the little-endian \<open>clientSSL OR clientProtocol41 OR clientSecureConn\<close>, the
  little-endian 16777215, the charset 33 and 23 zero bytes. Nothing further was read. With
  the bit clear, the handshake returns the not-supported error in the state after the packet
  was read, in which nothing is sent and nothing waits to be sent.
\<close>

theorem mysql_Handshake_capabilities:
  assumes "readMySQLPacket r = Some (Ok body, r1)"
    and "parseHandshakePacket body = Ok caps"
    and "wbuf r = []" and "werr r = None" and "writable r"
  shows "(caps AND 0x800 \<noteq> 0 \<longrightarrow>
            mysql_Handshake ctx r =
              Some (Ok (), r1\<lparr>sent := sent r @ [32, 0, 0, 1] @
                littleEndian32 (clientSSL OR clientProtocol41 OR clientSecureConn) @
                littleEndian32 16777215 @ [33] @ replicate 23 0\<rparr>) \<and>
            length ([32, 0, 0, 1] @
                littleEndian32 (clientSSL OR clientProtocol41 OR clientSecureConn) @
                littleEndian32 16777215 @ [33] @ replicate 23 (0 :: byte)) = 36) \<and>
         (caps AND 0x800 = 0 \<longrightarrow>
            mysql_Handshake ctx r =
              Some (Err (ErrStartTLSNotSupported (str ''MySQL server does not support SSL'')), r1) \<and>
            sent r1 = sent r \<and> wbuf r1 = [])"
proof -
  note fr = readMySQLPacket_frame [OF assms(1)]
  have ne: "createSSLRequestPacket \<noteq> []"
    using createSSLRequestPacket_length by auto
  have len: "length ([32, 0, 0, 1] @
                littleEndian32 (clientSSL OR clientProtocol41 OR clientSecureConn) @
                littleEndian32 16777215 @ [33] @ replicate 23 (0 :: byte)) = 36"
    by (simp add: littleEndian32_def)
  from assms fr ne have
    "caps AND 0x800 \<noteq> 0 \<longrightarrow>
       mysql_Handshake ctx r = Some (Ok (), r1\<lparr>sent := sent r @ createSSLRequestPacket\<rparr>)"
    by (simp add: mysql_Handshake_def clientSSL_def Write_def Flush_def)
  moreover from assms fr have
    "caps AND 0x800 = 0 \<longrightarrow>
       mysql_Handshake ctx r =
         Some (Err (ErrStartTLSNotSupported (str ''MySQL server does not support SSL'')), r1) \<and>
       sent r1 = sent r \<and> wbuf r1 = []"
    by (simp add: mysql_Handshake_def clientSSL_def)
  ultimately show ?thesis
    using len by (simp only: createSSLRequestPacket_bytes) blast
qed

text \<open>
  On a connection that does not accept the packet, the error of the flush is returned and
  the packet stays in the writer's buffer.
\<close>

lemma mysql_Handshake_flush_fails:
  assumes "readMySQLPacket r = Some (Ok body, r1)"
    and "parseHandshakePacket body = Ok caps" and "caps AND 0x800 \<noteq> 0"
    and "werr r = None" and "\<not> writable r"
  shows "mysql_Handshake ctx r =
           Some (Err (Wrap ''mysql: failed to flush SSL request'' (IOError ConnError)),
                 r1\<lparr>wbuf := wbuf r @ createSSLRequestPacket, werr := Some ConnError\<rparr>)"
proof -
  note fr = readMySQLPacket_frame [OF assms(1)]
  have ne: "createSSLRequestPacket \<noteq> []"
    using createSSLRequestPacket_length by auto
  from assms fr ne show ?thesis
    by (simp add: mysql_Handshake_def clientSSL_def Write_def Flush_def)
qed

lemma readMySQLPacket_handshakePacket:
  "readMySQLPacket (NewReadWriter (serving [handshakePacket capsHigh])) =
     Some (Ok (handshakeBody capsHigh), afterHandshakePacket capsHigh)"
  by (simp add: readMySQLPacket_def ReadFull_def ReadFull_loop.simps Read_def connRead_def
      bufSize_def NewReadWriter_def serving_def handshakePacket_def handshakeBody_def
      afterHandshakePacket_def str_def)

lemma parseHandshakePacket_handshakeBody:
  "parseHandshakePacket (handshakeBody capsHigh) = Ok (push_bit 8 (ucast capsHigh))"
  by (simp add: parseHandshakePacket_def mysqlProtocolVersion_def skipToNull_eq fieldLength_def
      handshakeBody_def handshakePacket_def str_def)

text \<open>
  The empty body is within reach: a packet whose header announces a length of 0 is read
  with an empty body, and the handshake panics on it.
\<close>

lemma mysql_Handshake_empty_packet:
  "mysql_Handshake ctx (NewReadWriter (serving [[0, 0, 0, 0]])) =
     Some (Panics ''index out of range [0] with length 0'', rwState silent [] [])"
  by (simp add: mysql_Handshake_def readMySQLPacket_def ReadFull_def ReadFull_loop.simps Read_def
      connRead_def bufSize_def NewReadWriter_def serving_def rwState_def parseHandshakePacket_def)

theorem mysql_Handshake_capabilities_witness:
  "readMySQLPacket (NewReadWriter (serving [handshakePacket 8])) =
     Some (Ok (handshakeBody 8), afterHandshakePacket 8) \<and>
   parseHandshakePacket (handshakeBody 8) = Ok 0x800 \<and>
   wbuf (NewReadWriter (serving [handshakePacket 8])) = [] \<and>
   werr (NewReadWriter (serving [handshakePacket 8])) = None \<and>
   writable (NewReadWriter (serving [handshakePacket 8])) \<and>
   (0x800 :: uint32) AND 0x800 \<noteq> 0 \<and>
   mysql_Handshake None (NewReadWriter (serving [handshakePacket 8])) =
     Some (Ok (), (afterHandshakePacket 8)\<lparr>sent :=
       [32, 0, 0, 1, 0x00, 0x8A, 0x00, 0x00, 0xFF, 0xFF, 0xFF, 0x00, 33] @ replicate 23 0\<rparr>) \<and>
   readMySQLPacket (NewReadWriter (serving [handshakePacket 0])) =
     Some (Ok (handshakeBody 0), afterHandshakePacket 0) \<and>
   parseHandshakePacket (handshakeBody 0) = Ok 0 \<and>
   (0 :: uint32) AND 0x800 = 0 \<and>
   mysql_Handshake None (NewReadWriter (serving [handshakePacket 0])) =
     Some (Err (ErrStartTLSNotSupported (str ''MySQL server does not support SSL'')),
           afterHandshakePacket 0) \<and>
   sent (afterHandshakePacket 0) = []"
proof -
  have w: "wbuf (NewReadWriter (serving [handshakePacket c])) = []"
    "werr (NewReadWriter (serving [handshakePacket c])) = None"
    "writable (NewReadWriter (serving [handshakePacket c]))"
    "sent (NewReadWriter (serving [handshakePacket c])) = []" for c
    by (simp_all add: NewReadWriter_def serving_def)
  have p8: "parseHandshakePacket (handshakeBody 8) = Ok 0x800"
    by (simp add: parseHandshakePacket_handshakeBody)
  have p0: "parseHandshakePacket (handshakeBody 0) = Ok 0"
    by (simp add: parseHandshakePacket_handshakeBody)
  note le = littleEndian32_clientFlags littleEndian32_maxSize
  show ?thesis
    using mysql_Handshake_capabilities [OF readMySQLPacket_handshakePacket p8 w(1,2,3), of None]
      mysql_Handshake_capabilities [OF readMySQLPacket_handshakePacket p0 w(1,2,3), of None]
    by (simp add: readMySQLPacket_handshakePacket p8 p0 w le)
qed

section \<open>Properties of the line reader and the exchange primitives\<close>

lemma ReadString_loop_frame:
  assumes "ReadString_loop delim frags r = Some (x, r')"
  shows "sent r' = sent r \<and> writable r' = writable r \<and> wbuf r' = wbuf r \<and> werr r' = werr r"
proof -
  have "sent (snd (x, r')) = sent r \<and> writable (snd (x, r')) = writable r \<and>
        wbuf (snd (x, r')) = wbuf r \<and> werr (snd (x, r')) = werr r"
    by (rule ReadString_loop.raw_induct
          [where P = "\<lambda>delim frags r y. sent (snd y) = sent r \<and> writable (snd y) = writable r \<and>
                        wbuf (snd y) = wbuf r \<and> werr (snd y) = werr r", OF _ assms])
       (fastforce split: option.splits if_splits prod.splits rd.splits)
  then show ?thesis
    by simp
qed

lemma readLine_frame:
  "readLine ctx r = Some (x, r') \<Longrightarrow>
   sent r' = sent r \<and> writable r' = writable r \<and> wbuf r' = wbuf r \<and> werr r' = werr r"
  by (auto simp: readLine_def ReadString_def
      split: option.splits prod.splits dest!: ReadString_loop_frame)

lemma readLine_no_panic: "readLine ctx r \<noteq> Some (Panics m, r')"
  by (auto simp: readLine_def split: option.splits prod.splits)

lemma linesRead_frame:
  "linesRead ctx ok n r = Some r' \<Longrightarrow>
   sent r' = sent r \<and> writable r' = writable r \<and> wbuf r' = wbuf r \<and> werr r' = werr r"
proof (induction n arbitrary: r)
  case 0
  then show ?case by simp
next
  case (Suc n)
  then show ?case
    by (auto split: option.splits prod.splits res.splits if_splits dest!: readLine_frame)
qed

lemma linesRead_Suc:
  "linesRead ctx ok (Suc n) r = Some r1 \<Longrightarrow>
   \<exists>line r'. readLine ctx r = Some (Ok line, r') \<and> ok line r' \<and> linesRead ctx ok n r' = Some r1"
  by (auto split: option.splits prod.splits res.splits if_splits)

lemma linesRead_snoc:
  "linesRead ctx ok n r = Some r1 \<Longrightarrow> readLine ctx r1 = Some (Ok line, r2) \<Longrightarrow> ok line r2 \<Longrightarrow>
   linesRead ctx ok (Suc n) r = Some r2"
proof (induction n arbitrary: r)
  case 0
  then show ?case by simp
next
  case (Suc n)
  from linesRead_Suc [OF Suc.prems(1)] obtain l r' where
    a: "readLine ctx r = Some (Ok l, r')" "ok l r'" "linesRead ctx ok n r' = Some r1"
    by blast
  from Suc.IH [OF a(3) Suc.prems(2,3)] have "linesRead ctx ok (Suc n) r' = Some r2" .
  with a show ?case
    by (simp del: linesRead.simps add: linesRead.simps(2) [of ctx ok "Suc n" r])
qed

subsection \<open>The greeting\<close>

lemma expectGreeting_found:
  "linesRead ctx (noGreeting pattern) n r = Some r1 \<Longrightarrow>
   readLine ctx r1 = Some (Ok line, r') \<Longrightarrow> MatchString pattern line \<Longrightarrow>
   expectGreeting ctx r pattern = Some (Ok (), r')"
proof (induction n arbitrary: r)
  case 0
  then show ?case
    by (simp add: expectGreeting.simps [of ctx r1 pattern])
next
  case (Suc n)
  from linesRead_Suc [OF Suc.prems(1)] obtain l r0 where
    a: "readLine ctx r = Some (Ok l, r0)" "noGreeting pattern l r0"
       "linesRead ctx (noGreeting pattern) n r0 = Some r1"
    by blast
  from Suc.IH [OF a(3) Suc.prems(2,3)] a(1,2) show ?case
    by (simp add: expectGreeting.simps [of ctx r pattern] noGreeting_def)
qed

lemma expectGreeting_read_error:
  "linesRead ctx (noGreeting pattern) n r = Some r1 \<Longrightarrow>
   readLine ctx r1 = Some (Err e, r') \<Longrightarrow>
   expectGreeting ctx r pattern = Some (Err e, r')"
proof (induction n arbitrary: r)
  case 0
  then show ?case
    by (simp add: expectGreeting.simps [of ctx r1 pattern])
next
  case (Suc n)
  from linesRead_Suc [OF Suc.prems(1)] obtain l r0 where
    a: "readLine ctx r = Some (Ok l, r0)" "noGreeting pattern l r0"
       "linesRead ctx (noGreeting pattern) n r0 = Some r1"
    by blast
  from Suc.IH [OF a(3) Suc.prems(2)] a(1,2) show ?case
    by (simp add: expectGreeting.simps [of ctx r pattern] noGreeting_def)
qed

lemma greetingEnds_step:
  "readLine ctx r = Some (Ok l, r0) \<Longrightarrow> \<not> MatchString pattern l \<Longrightarrow>
   greetingEnds ctx pattern r0 res r' \<Longrightarrow> greetingEnds ctx pattern r res r'"
proof -
  assume a: "readLine ctx r = Some (Ok l, r0)" "\<not> MatchString pattern l"
    and "greetingEnds ctx pattern r0 res r'"
  then obtain n r1 where
    b: "linesRead ctx (noGreeting pattern) n r0 = Some r1"
    and c: "(\<exists>line. readLine ctx r1 = Some (Ok line, r') \<and> MatchString pattern line \<and> res = Ok ()) \<or>
         (\<exists>e. readLine ctx r1 = Some (Err e, r') \<and> res = Err e)"
    unfolding greetingEnds_def by blast
  from a b have "linesRead ctx (noGreeting pattern) (Suc n) r = Some r1"
    by (simp add: noGreeting_def)
  with c show ?thesis
    unfolding greetingEnds_def by blast
qed

lemma expectGreeting_returns_only:
  assumes "expectGreeting ctx r pattern = Some (res, r')"
  shows "greetingEnds ctx pattern r res r'"
proof -
  have "greetingEnds ctx pattern r (fst (res, r')) (snd (res, r'))"
  proof (rule expectGreeting.raw_induct
          [where P = "\<lambda>ctx r pattern y. greetingEnds ctx pattern r (fst y) (snd y)", OF _ assms])
    fix loop ctx r pattern y
    assume IH: "\<And>ctx r pattern y. loop ctx r pattern = Some y \<Longrightarrow>
                  greetingEnds ctx pattern r (fst y) (snd y)"
    assume step: "(case readLine ctx r of
        None \<Rightarrow> None
      | Some (Ok line, r') \<Rightarrow>
          if MatchString pattern line then Some (Ok (), r')
          else loop ctx r' pattern
      | Some (Err e, r') \<Rightarrow> Some (Err e, r')
      | Some (Panics m, r') \<Rightarrow> Some (Panics m, r')) = Some y"
    then obtain x r0 where rl: "readLine ctx r = Some (x, r0)"
      by (cases "readLine ctx r") auto
    have z: "linesRead ctx (noGreeting pattern) 0 r = Some r"
      by simp
    show "greetingEnds ctx pattern r (fst y) (snd y)"
    proof (cases x)
      case (Ok l)
      show ?thesis
      proof (cases "MatchString pattern l")
        case True
        with step rl Ok z show ?thesis
          unfolding greetingEnds_def by fastforce
      next
        case False
        with step rl Ok have "loop ctx r0 pattern = Some y"
          by simp
        from IH [OF this] rl Ok False show ?thesis
          by (blast intro: greetingEnds_step)
      qed
    next
      case (Err e)
      with step rl z show ?thesis
        unfolding greetingEnds_def by fastforce
    next
      case (Panics m)
      with rl show ?thesis
        by (simp add: readLine_no_panic)
    qed
  qed
  then show ?thesis
    by simp
qed

lemma expectGreeting_frame:
  assumes "expectGreeting ctx r pattern = Some (res, r')"
  shows "sent r' = sent r \<and> writable r' = writable r \<and> wbuf r' = wbuf r \<and> werr r' = werr r"
proof -
  from expectGreeting_returns_only [OF assms] obtain n r1 x where
    a: "linesRead ctx (noGreeting pattern) n r = Some r1" and b: "readLine ctx r1 = Some (x, r')"
    unfolding greetingEnds_def by blast
  from linesRead_frame [OF a] readLine_frame [OF b] show ?thesis
    by simp
qed

subsection \<open>Writing a command\<close>

lemma WriteString_Flush:
  "werr r = None \<Longrightarrow> writable r \<Longrightarrow>
   (case WriteString cmd r of
      (Some e, r) \<Rightarrow> f e r
    | (None, r) \<Rightarrow> (case Flush r of (Some e, r) \<Rightarrow> g e r | (None, r) \<Rightarrow> h r)) =
   h (flushed r cmd)"
  by (simp add: WriteString_def Flush_def flushed_def)

lemma flushed_simps [simp]:
  "sent (flushed r cmd) = sent r @ wbuf r @ cmd" "wbuf (flushed r cmd) = []"
  "werr (flushed r cmd) = werr r" "writable (flushed r cmd) = writable r"
  "rbuf (flushed r cmd) = rbuf r" "incoming (flushed r cmd) = incoming r"
  by (simp_all add: flushed_def)

lemma sendStartTLS_eq:
  "werr r = None \<Longrightarrow> writable r \<Longrightarrow>
   sendStartTLS ctx r cmd pat =
     (case readLine ctx (flushed r cmd) of
        None \<Rightarrow> None
      | Some (Err e, r) \<Rightarrow> Some (Err e, r)
      | Some (Panics m, r) \<Rightarrow> Some (Panics m, r)
      | Some (Ok line, r) \<Rightarrow>
          if \<not> MatchString pat line
          then Some (Err (ErrStartTLSNotSupported (TrimSpace line)), r)
          else Some (Ok (), r))"
  unfolding sendStartTLS_def by (rule WriteString_Flush)

lemma sendStartTLS_sent:
  assumes "sendStartTLS ctx r cmd pat = Some (res, r')" "werr r = None" "writable r"
  shows "sent r' = sent r @ wbuf r @ cmd"
proof -
  from assms obtain x where "readLine ctx (flushed r cmd) = Some (x, r')"
    by (auto simp: sendStartTLS_eq split: option.splits prod.splits res.splits if_splits)
  from readLine_frame [OF this] show ?thesis
    by simp
qed

lemma sendEHLO_eq:
  "werr r = None \<Longrightarrow> writable r \<Longrightarrow>
   sendEHLO ctx r = sendEHLO_loop ctx (flushed r ehloCommand)"
  unfolding sendEHLO_def ehloCommand_def by (rule WriteString_Flush)

subsection \<open>The capability loop\<close>

lemma sendEHLO_loop_drained:
  "linesRead ctx moreBuffered n r = Some r1 \<Longrightarrow>
   readLine ctx r1 = Some (Ok line, r') \<Longrightarrow> HasPrefix line (str ''250'') \<Longrightarrow>
   Buffered r' = 0 \<Longrightarrow> sendEHLO_loop ctx r = Some (Ok (), r')"
proof (induction n arbitrary: r)
  case 0
  then show ?case
    by (simp add: sendEHLO_loop.simps [of ctx r1])
next
  case (Suc n)
  from linesRead_Suc [OF Suc.prems(1)] obtain l r0 where
    a: "readLine ctx r = Some (Ok l, r0)" "moreBuffered l r0"
       "linesRead ctx moreBuffered n r0 = Some r1"
    by blast
  from Suc.IH [OF a(3) Suc.prems(2,3,4)] a(1,2) show ?case
    by (simp add: sendEHLO_loop.simps [of ctx r] moreBuffered_def)
qed

lemma sendEHLO_loop_invalid:
  "linesRead ctx moreBuffered n r = Some r1 \<Longrightarrow>
   readLine ctx r1 = Some (Ok line, r') \<Longrightarrow> \<not> HasPrefix line (str ''250'') \<Longrightarrow>
   sendEHLO_loop ctx r = Some (Err (ErrInvalidResponse line), r')"
proof (induction n arbitrary: r)
  case 0
  then show ?case
    by (simp add: sendEHLO_loop.simps [of ctx r1])
next
  case (Suc n)
  from linesRead_Suc [OF Suc.prems(1)] obtain l r0 where
    a: "readLine ctx r = Some (Ok l, r0)" "moreBuffered l r0"
       "linesRead ctx moreBuffered n r0 = Some r1"
    by blast
  from Suc.IH [OF a(3) Suc.prems(2,3)] a(1,2) show ?case
    by (simp add: sendEHLO_loop.simps [of ctx r] moreBuffered_def)
qed

lemma smtp_Handshake_after_greeting:
  "expectGreeting ctx r0 (greetMsg p) = Some (Ok (), r1) \<Longrightarrow>
   smtp_Handshake p ctx r0 =
     andThen (wrapf ''smtp: EHLO failed'' (sendEHLO ctx r1)) (\<lambda>_ r.
       wrapf ''smtp: STARTTLS failed'' (sendStartTLS ctx r (authMsg p) (respMsg p)))"
  by (simp add: smtp_Handshake_def andThen_def wrapf_def)

text \<open>
  Claim C6. Let the SMTP greeting have matched, on a writer with nothing unflushed and a
  connection that accepts what is written. The EHLO command is then written and flushed,
  and lines are read. Let \<open>n\<close> lines have been read that start with "250" and left bytes in
  the reader's buffer, and let the next line be read. If it does not start with "250", the
  handshake fails with the invalid-response error carrying that line, wrapped as
  "smtp: EHLO failed", and nothing but the EHLO command was sent. If it starts with "250"
  and the buffer is empty after it, \<open>sendEHLO\<close> returns success there, with nothing but the
  EHLO command sent, and the handshake is what the upgrade step does from that state.
\<close>

theorem smtp_Handshake_capability_loop:
  assumes "expectGreeting ctx r0 (greetMsg p) = Some (Ok (), r1)"
    and "wbuf r0 = []" and "werr r0 = None" and "writable r0"
    and "linesRead ctx moreBuffered n (flushed r1 ehloCommand) = Some r2"
    and "readLine ctx r2 = Some (Ok line, r3)"
  shows "(\<not> HasPrefix line (str ''250'') \<longrightarrow>
            smtp_Handshake p ctx r0 =
              Some (Err (Wrap ''smtp: EHLO failed'' (ErrInvalidResponse line)), r3) \<and>
            sent r3 = sent r0 @ ehloCommand) \<and>
         (HasPrefix line (str ''250'') \<and> Buffered r3 = 0 \<longrightarrow>
            sendEHLO ctx r1 = Some (Ok (), r3) \<and>
            sent r3 = sent r0 @ ehloCommand \<and>
            smtp_Handshake p ctx r0 =
              wrapf ''smtp: STARTTLS failed'' (sendStartTLS ctx r3 (authMsg p) (respMsg p)))"
proof -
  note f1 = expectGreeting_frame [OF assms(1)]
  from f1 assms have w: "werr r1 = None" "writable r1" "wbuf r1 = []"
    by simp_all
  from linesRead_frame [OF assms(5)] readLine_frame [OF assms(6)] f1 w
  have s: "sent r3 = sent r0 @ ehloCommand"
    by simp
  have e: "sendEHLO ctx r1 = sendEHLO_loop ctx (flushed r1 ehloCommand)"
    using w by (simp add: sendEHLO_eq)
  have "\<not> HasPrefix line (str ''250'') \<Longrightarrow>
        smtp_Handshake p ctx r0 =
          Some (Err (Wrap ''smtp: EHLO failed'' (ErrInvalidResponse line)), r3)"
    using sendEHLO_loop_invalid [OF assms(5,6)] e
    by (simp add: smtp_Handshake_after_greeting [OF assms(1)] andThen_def wrapf_def)
  moreover have "HasPrefix line (str ''250'') \<Longrightarrow> Buffered r3 = 0 \<Longrightarrow>
        sendEHLO ctx r1 = Some (Ok (), r3)"
    using sendEHLO_loop_drained [OF assms(5,6)] e by simp
  moreover have "sendEHLO ctx r1 = Some (Ok (), r3) \<Longrightarrow>
        smtp_Handshake p ctx r0 =
          wrapf ''smtp: STARTTLS failed'' (sendStartTLS ctx r3 (authMsg p) (respMsg p))"
    by (simp add: smtp_Handshake_after_greeting [OF assms(1)] andThen_def wrapf_def)
  ultimately show ?thesis
    using s by blast
qed

text \<open>
  Claim C10. The loop looks at the first three bytes of a line and at the number of buffered
  bytes, at nothing else. So when a continuation line, one that starts with "250-", is read
  and leaves the buffer empty, \<open>sendEHLO\<close> returns success although the reply is not
  complete, the handshake goes on to the upgrade step, and whatever the handshake returns,
  the upgrade command was sent after the EHLO command.
\<close>

theorem sendEHLO_stops_at_continuation_line:
  assumes "expectGreeting ctx r0 (greetMsg p) = Some (Ok (), r1)"
    and "wbuf r0 = []" and "werr r0 = None" and "writable r0"
    and "linesRead ctx moreBuffered n (flushed r1 ehloCommand) = Some r2"
    and "readLine ctx r2 = Some (Ok (str ''250-'' @ rest), r3)"
    and "Buffered r3 = 0"
  shows "sendEHLO ctx r1 = Some (Ok (), r3) \<and>
         smtp_Handshake p ctx r0 =
           wrapf ''smtp: STARTTLS failed'' (sendStartTLS ctx r3 (authMsg p) (respMsg p)) \<and>
         (\<forall>res r4. smtp_Handshake p ctx r0 = Some (res, r4) \<longrightarrow>
            sent r4 = sent r0 @ ehloCommand @ authMsg p)"
proof -
  note f1 = expectGreeting_frame [OF assms(1)]
  from f1 assms have w: "werr r1 = None" "writable r1" "wbuf r1 = []"
    by simp_all
  from linesRead_frame [OF assms(5)] readLine_frame [OF assms(6)] f1 w
  have s: "sent r3 = sent r0 @ ehloCommand" "werr r3 = None" "writable r3" "wbuf r3 = []"
    by simp_all
  have pre: "HasPrefix (str ''250-'' @ rest) (str ''250'')"
    by (simp add: HasPrefix_def str_def)
  have e: "sendEHLO ctx r1 = Some (Ok (), r3)"
    using sendEHLO_loop_drained [OF assms(5,6) pre assms(7)] w by (simp add: sendEHLO_eq)
  then have h: "smtp_Handshake p ctx r0 =
      wrapf ''smtp: STARTTLS failed'' (sendStartTLS ctx r3 (authMsg p) (respMsg p))"
    by (simp add: smtp_Handshake_after_greeting [OF assms(1)] andThen_def wrapf_def)
  have "sent r4 = sent r0 @ ehloCommand @ authMsg p"
    if "smtp_Handshake p ctx r0 = Some (res, r4)" for res r4
  proof -
    from that h obtain res' where
      "sendStartTLS ctx r3 (authMsg p) (respMsg p) = Some (res', r4)"
      by (auto simp: wrapf_def split: option.splits prod.splits res.splits)
    from sendStartTLS_sent [OF this s(2,3)] s show ?thesis
      by simp
  qed
  with e h show ?thesis
    by blast
qed

text \<open>
  Claim C7. The upgrade step of every line-oriented driver is \<open>sendStartTLS\<close> with the
  driver's command and success pattern. On a writer with nothing unflushed and a connection
  that accepts what is written, it sends exactly the command and reads one line; if that
  line does not match the pattern, the step fails with the not-supported error that
  carries the line with the white space around it trimmed, and the read of that one line
  is the last thing done. The IMAP, POP3 and FTP handshakes whose greeting led to the step,
  and the SMTP handshake whose greeting and capability exchange did (whatever the
  capability lines were), return that error wrapped with their phase.
\<close>

theorem sendStartTLS_rejected:
  assumes "wbuf r = []" and "werr r = None" and "writable r"
    and "readLine ctx (flushed r (authMsg p)) = Some (Ok line, r')"
    and "\<not> MatchString (respMsg p) line"
  shows "sendStartTLS ctx r (authMsg p) (respMsg p) =
           Some (Err (ErrStartTLSNotSupported (TrimSpace line)), r') \<and>
         sent r' = sent r @ authMsg p \<and>
         (\<forall>r0. expectGreeting ctx r0 (greetMsg p) = Some (Ok (), r) \<longrightarrow>
            imap_Handshake p ctx r0 =
              Some (Err (Wrap ''imap: STARTTLS failed'' (ErrStartTLSNotSupported (TrimSpace line))), r') \<and>
            pop3_Handshake p ctx r0 =
              Some (Err (Wrap ''pop3: STARTTLS failed'' (ErrStartTLSNotSupported (TrimSpace line))), r') \<and>
            ftp_Handshake p ctx r0 =
              Some (Err (Wrap ''ftp: AUTH TLS failed'' (ErrStartTLSNotSupported (TrimSpace line))), r')) \<and>
         (\<forall>r0 r1. expectGreeting ctx r0 (greetMsg p) = Some (Ok (), r1) \<and>
                  sendEHLO ctx r1 = Some (Ok (), r) \<longrightarrow>
            smtp_Handshake p ctx r0 =
              Some (Err (Wrap ''smtp: STARTTLS failed'' (ErrStartTLSNotSupported (TrimSpace line))), r'))"
proof -
  have a: "sendStartTLS ctx r (authMsg p) (respMsg p) =
      Some (Err (ErrStartTLSNotSupported (TrimSpace line)), r')"
    using assms by (simp add: sendStartTLS_eq)
  from sendStartTLS_sent [OF a assms(2,3)] assms(1)
  have b: "sent r' = sent r @ authMsg p"
    by simp
  from a b show ?thesis
    by (simp add: imap_Handshake_def pop3_Handshake_def ftp_Handshake_def smtp_Handshake_def
        andThen_def wrapf_def)
qed

section \<open>The properties on concrete exchanges\<close>

lemmas run =
  str_def CRLF_def rwState_def silent_def NewReadWriter_def serving_def flushed_def
  readLine_def ReadString_def ReadString_loop.simps connRead_def Buffered_def bufSize_def
  HasPrefix_def TrimSpace_def spaceRunes_def trimLeft.simps noGreeting_def moreBuffered_def ehloCommand_def
  greeting220_def banner_def capabilityLine1_def capabilityLine2_def noStartTLSLine_def
  refusal_def readyForTLS_def newSMTPProtocol_def newBaseProtocol_def

text \<open>
  Claim C8. If, after \<open>n\<close> lines that were read and do not match the pattern, a line is read
  that matches, \<open>expectGreeting\<close> returns success in the state that the read of that line
  left: the lines before it were read and dropped, nothing after it was touched. If after
  such \<open>n\<close> lines a read fails, with an I/O error or with the context's error, it returns
  that error. And it returns in no other way: whenever it returns, one of the two
  happened.
\<close>

theorem expectGreeting_first_match:
  "(linesRead ctx (noGreeting pattern) n r = Some r1 \<and>
    readLine ctx r1 = Some (Ok line, r') \<and> MatchString pattern line \<longrightarrow>
      expectGreeting ctx r pattern = Some (Ok (), r')) \<and>
   (linesRead ctx (noGreeting pattern) n r = Some r1 \<and>
    readLine ctx r1 = Some (Err e, r') \<longrightarrow>
      expectGreeting ctx r pattern = Some (Err e, r')) \<and>
   (expectGreeting ctx r pattern = Some (res, r'') \<longrightarrow>
      (\<exists>k r2. linesRead ctx (noGreeting pattern) k r = Some r2 \<and>
         ((\<exists>l. readLine ctx r2 = Some (Ok l, r'') \<and> MatchString pattern l \<and> res = Ok ()) \<or>
          (\<exists>e. readLine ctx r2 = Some (Err e, r'') \<and> res = Err e))))"
  using expectGreeting_found [of ctx pattern n r r1 line r']
    expectGreeting_read_error [of ctx pattern n r r1 e r']
    expectGreeting_returns_only [of ctx r pattern res r'']
  unfolding greetingEnds_def by blast

theorem expectGreeting_first_match_witness:
  "linesRead None (noGreeting (StartsWith (str ''220 ''))) 1
     (NewReadWriter (serving [banner, greeting220])) =
     Some (rwState (segments [greeting220] silent) [] []) \<and>
   readLine None (rwState (segments [greeting220] silent) [] []) =
     Some (Ok greeting220, rwState silent [] []) \<and>
   MatchString (StartsWith (str ''220 '')) greeting220 \<and>
   expectGreeting None (NewReadWriter (serving [banner, greeting220])) (StartsWith (str ''220 '')) =
     Some (Ok (), rwState silent [] []) \<and>
   linesRead (Some DeadlineExceeded) (noGreeting (StartsWith (str ''220 ''))) 1
     (NewReadWriter (serving [banner])) = Some (rwState silent [] []) \<and>
   readLine (Some DeadlineExceeded) (rwState silent [] []) =
     Some (Err (CtxError DeadlineExceeded), rwState silent [] []) \<and>
   expectGreeting (Some DeadlineExceeded) (NewReadWriter (serving [banner])) (StartsWith (str ''220 '')) =
     Some (Err (CtxError DeadlineExceeded), rwState silent [] [])"
proof -
  have a: "linesRead None (noGreeting (StartsWith (str ''220 ''))) 1
     (NewReadWriter (serving [banner, greeting220])) =
     Some (rwState (segments [greeting220] silent) [] [])"
    by (simp add: run)
  have b: "readLine None (rwState (segments [greeting220] silent) [] []) =
     Some (Ok greeting220, rwState silent [] [])"
    by (simp add: run)
  have c: "MatchString (StartsWith (str ''220 '')) greeting220"
    by (simp add: run)
  have d: "linesRead (Some DeadlineExceeded) (noGreeting (StartsWith (str ''220 ''))) 1
     (NewReadWriter (serving [banner])) = Some (rwState silent [] [])"
    by (simp add: run)
  have e: "readLine (Some DeadlineExceeded) (rwState silent [] []) =
     Some (Err (CtxError DeadlineExceeded), rwState silent [] [])"
    by (simp add: run)
  show ?thesis
    using expectGreeting_first_match [of None "StartsWith (str ''220 '')" 1
        "NewReadWriter (serving [banner, greeting220])" "rwState (segments [greeting220] silent) [] []"
        greeting220 "rwState silent [] []"]
      expectGreeting_first_match [where ctx = "Some DeadlineExceeded"
        and pattern = "StartsWith (str ''220 '')" and n = 1
        and r = "NewReadWriter (serving [banner])" and ?r1.0 = "rwState silent [] []"
        and e = "CtxError DeadlineExceeded" and r' = "rwState silent [] []"]
      a b c d e
    by blast
qed

lemmas run_smtp =
  run expectGreeting.simps sendEHLO_def sendEHLO_loop.simps sendStartTLS_def
  WriteString_def Flush_def smtp_Handshake_def andThen_def wrapf_def

theorem sendStartTLS_rejected_witness:
  "wbuf (rwState (segments [refusal] silent) ehloCommand []) = [] \<and>
   werr (rwState (segments [refusal] silent) ehloCommand []) = None \<and>
   writable (rwState (segments [refusal] silent) ehloCommand []) \<and>
   readLine None (flushed (rwState (segments [refusal] silent) ehloCommand [])
       (authMsg newSMTPProtocol)) =
     Some (Ok refusal, rwState silent (ehloCommand @ str ''STARTTLS'' @ CRLF) []) \<and>
   \<not> MatchString (respMsg newSMTPProtocol) refusal \<and>
   expectGreeting None
       (NewReadWriter (serving [greeting220, capabilityLine1 @ noStartTLSLine, refusal]))
       (greetMsg newSMTPProtocol) =
     Some (Ok (), rwState (segments [capabilityLine1 @ noStartTLSLine, refusal] silent) [] []) \<and>
   sendEHLO None (rwState (segments [capabilityLine1 @ noStartTLSLine, refusal] silent) [] []) =
     Some (Ok (), rwState (segments [refusal] silent) ehloCommand []) \<and>
   TrimSpace refusal = str ''500 Not supported'' \<and>
   smtp_Handshake newSMTPProtocol None
       (NewReadWriter (serving [greeting220, capabilityLine1 @ noStartTLSLine, refusal])) =
     Some (Err (Wrap ''smtp: STARTTLS failed'' (ErrStartTLSNotSupported (str ''500 Not supported''))),
           rwState silent (ehloCommand @ str ''STARTTLS'' @ CRLF) [])"
proof -
  have w: "wbuf (rwState (segments [refusal] silent) ehloCommand []) = []"
    "werr (rwState (segments [refusal] silent) ehloCommand []) = None"
    "writable (rwState (segments [refusal] silent) ehloCommand [])"
    by (simp_all add: rwState_def)
  have a: "readLine None (flushed (rwState (segments [refusal] silent) ehloCommand [])
       (authMsg newSMTPProtocol)) =
     Some (Ok refusal, rwState silent (ehloCommand @ str ''STARTTLS'' @ CRLF) [])"
    by (simp add: run)
  have b: "\<not> MatchString (respMsg newSMTPProtocol) refusal"
    by (simp add: run)
  have c: "expectGreeting None
       (NewReadWriter (serving [greeting220, capabilityLine1 @ noStartTLSLine, refusal]))
       (greetMsg newSMTPProtocol) =
     Some (Ok (), rwState (segments [capabilityLine1 @ noStartTLSLine, refusal] silent) [] [])"
    by (simp add: run_smtp)
  have d: "sendEHLO None (rwState (segments [capabilityLine1 @ noStartTLSLine, refusal] silent) [] []) =
     Some (Ok (), rwState (segments [refusal] silent) ehloCommand [])"
    by (simp add: run_smtp)
  have e: "TrimSpace refusal = str ''500 Not supported''"
    by (simp add: run)
  show ?thesis
    using sendStartTLS_rejected [OF w a b] a b c d e w
    by simp
qed

theorem smtp_Handshake_capability_loop_witness:
  "expectGreeting None
       (NewReadWriter (serving [greeting220, capabilityLine1 @ capabilityLine2, readyForTLS]))
       (greetMsg newSMTPProtocol) =
     Some (Ok (), rwState (segments [capabilityLine1 @ capabilityLine2, readyForTLS] silent) [] []) \<and>
   linesRead None moreBuffered 1
       (flushed (rwState (segments [capabilityLine1 @ capabilityLine2, readyForTLS] silent) [] [])
          ehloCommand) =
     Some (rwState (segments [readyForTLS] silent) ehloCommand capabilityLine2) \<and>
   readLine None (rwState (segments [readyForTLS] silent) ehloCommand capabilityLine2) =
     Some (Ok capabilityLine2, rwState (segments [readyForTLS] silent) ehloCommand []) \<and>
   HasPrefix capabilityLine2 (str ''250'') \<and>
   Buffered (rwState (segments [readyForTLS] silent) ehloCommand []) = 0 \<and>
   sendEHLO None (rwState (segments [capabilityLine1 @ capabilityLine2, readyForTLS] silent) [] []) =
     Some (Ok (), rwState (segments [readyForTLS] silent) ehloCommand []) \<and>
   smtp_Handshake newSMTPProtocol None
       (NewReadWriter (serving [greeting220, capabilityLine1 @ capabilityLine2, readyForTLS])) =
     Some (Ok (), rwState silent (ehloCommand @ str ''STARTTLS'' @ CRLF) []) \<and>
   expectGreeting None (NewReadWriter (serving [greeting220, capabilityLine1 @ refusal]))
       (greetMsg newSMTPProtocol) =
     Some (Ok (), rwState (segments [capabilityLine1 @ refusal] silent) [] []) \<and>
   linesRead None moreBuffered 1
       (flushed (rwState (segments [capabilityLine1 @ refusal] silent) [] []) ehloCommand) =
     Some (rwState silent ehloCommand refusal) \<and>
   readLine None (rwState silent ehloCommand refusal) =
     Some (Ok refusal, rwState silent ehloCommand []) \<and>
   \<not> HasPrefix refusal (str ''250'') \<and>
   smtp_Handshake newSMTPProtocol None
       (NewReadWriter (serving [greeting220, capabilityLine1 @ refusal])) =
     Some (Err (Wrap ''smtp: EHLO failed'' (ErrInvalidResponse refusal)),
           rwState silent ehloCommand [])"
proof -
  have w: "wbuf (NewReadWriter (serving xs)) = []" "werr (NewReadWriter (serving xs)) = None"
    "writable (NewReadWriter (serving xs))" for xs
    by (simp_all add: NewReadWriter_def serving_def)
  have a1: "expectGreeting None
       (NewReadWriter (serving [greeting220, capabilityLine1 @ capabilityLine2, readyForTLS]))
       (greetMsg newSMTPProtocol) =
     Some (Ok (), rwState (segments [capabilityLine1 @ capabilityLine2, readyForTLS] silent) [] [])"
    by (simp add: run_smtp)
  have a2: "linesRead None moreBuffered 1
       (flushed (rwState (segments [capabilityLine1 @ capabilityLine2, readyForTLS] silent) [] [])
          ehloCommand) =
     Some (rwState (segments [readyForTLS] silent) ehloCommand capabilityLine2)"
    by (simp add: run)
  have a3: "readLine None (rwState (segments [readyForTLS] silent) ehloCommand capabilityLine2) =
     Some (Ok capabilityLine2, rwState (segments [readyForTLS] silent) ehloCommand [])"
    by (simp add: run)
  have a4: "HasPrefix capabilityLine2 (str ''250'')"
    "Buffered (rwState (segments [readyForTLS] silent) ehloCommand []) = 0"
    by (simp_all add: run)
  have a5: "sendStartTLS None (rwState (segments [readyForTLS] silent) ehloCommand [])
      (authMsg newSMTPProtocol) (respMsg newSMTPProtocol) =
     Some (Ok (), rwState silent (ehloCommand @ str ''STARTTLS'' @ CRLF) [])"
    by (simp add: run_smtp)
  have b1: "expectGreeting None (NewReadWriter (serving [greeting220, capabilityLine1 @ refusal]))
       (greetMsg newSMTPProtocol) =
     Some (Ok (), rwState (segments [capabilityLine1 @ refusal] silent) [] [])"
    by (simp add: run_smtp)
  have b2: "linesRead None moreBuffered 1
       (flushed (rwState (segments [capabilityLine1 @ refusal] silent) [] []) ehloCommand) =
     Some (rwState silent ehloCommand refusal)"
    by (simp add: run)
  have b3: "readLine None (rwState silent ehloCommand refusal) =
     Some (Ok refusal, rwState silent ehloCommand [])"
    by (simp add: run)
  have b4: "\<not> HasPrefix refusal (str ''250'')"
    by (simp add: run)
  show ?thesis
    using smtp_Handshake_capability_loop [OF a1 w a2 a3]
      smtp_Handshake_capability_loop [OF b1 w b2 b3]
      a1 a2 a3 a4 a5 b1 b2 b3 b4
    by (simp add: wrapf_def)
qed

theorem sendEHLO_stops_at_continuation_line_witness:
  "expectGreeting None
       (NewReadWriter (serving [greeting220, capabilityLine1, capabilityLine2]))
       (greetMsg newSMTPProtocol) =
     Some (Ok (), rwState (segments [capabilityLine1, capabilityLine2] silent) [] []) \<and>
   linesRead None moreBuffered 0
       (flushed (rwState (segments [capabilityLine1, capabilityLine2] silent) [] []) ehloCommand) =
     Some (flushed (rwState (segments [capabilityLine1, capabilityLine2] silent) [] []) ehloCommand) \<and>
   readLine None
       (flushed (rwState (segments [capabilityLine1, capabilityLine2] silent) [] []) ehloCommand) =
     Some (Ok (str ''250-'' @ str ''test.test.test'' @ CRLF),
           rwState (segments [capabilityLine2] silent) ehloCommand []) \<and>
   Buffered (rwState (segments [capabilityLine2] silent) ehloCommand []) = 0 \<and>
   sendEHLO None (rwState (segments [capabilityLine1, capabilityLine2] silent) [] []) =
     Some (Ok (), rwState (segments [capabilityLine2] silent) ehloCommand []) \<and>
   smtp_Handshake newSMTPProtocol None
       (NewReadWriter (serving [greeting220, capabilityLine1, capabilityLine2])) =
     Some (Err (Wrap ''smtp: STARTTLS failed'' (ErrStartTLSNotSupported (str ''250 STARTTLS''))),
           rwState silent (ehloCommand @ str ''STARTTLS'' @ CRLF) [])"
proof -
  have w: "wbuf (NewReadWriter (serving xs)) = []" "werr (NewReadWriter (serving xs)) = None"
    "writable (NewReadWriter (serving xs))" for xs
    by (simp_all add: NewReadWriter_def serving_def)
  have a1: "expectGreeting None
       (NewReadWriter (serving [greeting220, capabilityLine1, capabilityLine2]))
       (greetMsg newSMTPProtocol) =
     Some (Ok (), rwState (segments [capabilityLine1, capabilityLine2] silent) [] [])"
    by (simp add: run_smtp)
  have a2: "linesRead None moreBuffered 0
       (flushed (rwState (segments [capabilityLine1, capabilityLine2] silent) [] []) ehloCommand) =
     Some (flushed (rwState (segments [capabilityLine1, capabilityLine2] silent) [] []) ehloCommand)"
    by simp
  have a3: "readLine None
       (flushed (rwState (segments [capabilityLine1, capabilityLine2] silent) [] []) ehloCommand) =
     Some (Ok (str ''250-'' @ str ''test.test.test'' @ CRLF),
           rwState (segments [capabilityLine2] silent) ehloCommand [])"
    by (simp add: run)
  have a4: "Buffered (rwState (segments [capabilityLine2] silent) ehloCommand []) = 0"
    by (simp add: run)
  have a5: "sendStartTLS None (rwState (segments [capabilityLine2] silent) ehloCommand [])
      (authMsg newSMTPProtocol) (respMsg newSMTPProtocol) =
     Some (Err (ErrStartTLSNotSupported (str ''250 STARTTLS'')),
           rwState silent (ehloCommand @ str ''STARTTLS'' @ CRLF) [])"
    by (simp add: run_smtp)
  show ?thesis
    using sendEHLO_stops_at_continuation_line [OF a1 w a2 a3 a4] a1 a2 a3 a4 a5
    by (simp add: wrapf_def)
qed

section \<open>Properties of the buffered reader\<close>

lemma peek_unread:
  "peek n (unread xs s) =
     (if n \<le> length xs then (take n xs, None)
      else (xs @ fst (peek (n - length xs) s), snd (peek (n - length xs) s)))"
proof (induction xs arbitrary: n)
  case Nil
  then show ?case by (cases n) simp_all
next
  case (Cons b bs)
  show ?case
  proof (cases n)
    case 0
    then show ?thesis by simp
  next
    case (Suc m)
    then show ?thesis
      by (simp add: Cons.IH split: prod.splits)
  qed
qed

lemma peek_unread_ge:
  "length xs \<le> n \<Longrightarrow>
   peek n (unread xs s) = (xs @ fst (peek (n - length xs) s), snd (peek (n - length xs) s))"
  by (simp add: peek_unread)

lemma peek_unread_cong:
  "(\<And>n. peek n s = peek n s') \<Longrightarrow> peek n (unread xs s) = peek n (unread xs s')"
  by (simp add: peek_unread)

lemma peek_unread_append:
  "peek n (unread (xs @ ys) s) = peek n (unread xs (unread ys s))"
  by (auto simp: peek_unread)

lemma peek_None_length: "snd (peek n s) = None \<Longrightarrow> length (fst (peek n s)) = n"
proof (induction n arbitrary: s)
  case 0
  then show ?case by simp
next
  case (Suc n)
  show ?case
  proof (cases "shd s")
    case (Seg b bs)
    with Suc.prems Suc.IH [of "unread bs (stl s)"] show ?thesis
      by (auto split: prod.splits)
  qed (use Suc.prems in simp_all)
qed

lemma peek_Some_no_Seg: "snd (peek n s) \<noteq> Some (Seg b bs)"
proof (induction n arbitrary: s)
  case 0
  then show ?case by simp
next
  case (Suc n)
  show ?case
  proof (cases "shd s")
    case (Seg c cs)
    with Suc [of "unread cs (stl s)"] show ?thesis
      by (auto split: prod.splits)
  qed simp_all
qed

subsection \<open>One read of the connection\<close>

lemma connRead_Got:
  assumes "connRead k s = (Got zs, s')" and "0 < k"
  shows "zs \<noteq> [] \<and> length zs \<le> k \<and> (\<forall>n. peek n s = peek n (unread zs s'))"
proof -
  from assms(1) obtain b bs where seg: "shd s = Seg b bs"
    and zs: "zs = take k (b # bs)" and s': "s' = unread (drop k (b # bs)) (stl s)"
    by (auto simp: connRead_def split: event.splits)
  have "s = unread (b # bs) (stl s)"
    using seg by (simp add: stream.expand)
  then have "peek n s = peek n (unread (take k (b # bs) @ drop k (b # bs)) (stl s))" for n
    by simp
  then have "peek n s = peek n (unread zs s')" for n
    unfolding zs s' by (simp only: peek_unread_append)
  with zs assms(2) show ?thesis
    by (cases k) auto
qed

lemma connRead_Failed:
  assumes "connRead k s = (Failed e, s')"
  shows "s' = s \<and> ((e = EOF \<and> shd s = Eof) \<or> (e = ConnError \<and> shd s = Reset))"
  using assms by (auto simp: connRead_def split: event.splits)

lemma connRead_Blocked:
  assumes "connRead k s = (Blocked, s')"
  shows "s' = s \<and> shd s = Stall"
  using assms by (auto simp: connRead_def split: event.splits)

lemma peek_Eof: "shd s = Eof \<Longrightarrow> 0 < n \<Longrightarrow> peek n s = ([], Some Eof)"
  by (cases n) simp_all

lemma peek_Reset: "shd s = Reset \<Longrightarrow> 0 < n \<Longrightarrow> peek n s = ([], Some Reset)"
  by (cases n) simp_all

lemma peek_Stall: "shd s = Stall \<Longrightarrow> 0 < n \<Longrightarrow> peek n s = ([], Some Stall)"
  by (cases n) simp_all

subsection \<open>\<open>Read\<close> and \<open>ReadFull\<close>\<close>

lemma Read_Got:
  assumes "Read k r = (Got zs, r')" and "0 < k"
  shows "zs \<noteq> [] \<and> length zs \<le> k \<and>
         (\<forall>n. peek n (upcoming r) = peek n (unread zs (upcoming r')))"
proof (cases "rbuf r = []")
  case False
  with assms have zs: "zs = take k (rbuf r)" and r': "r' = r\<lparr>rbuf := drop k (rbuf r)\<rparr>"
    by (auto simp: Read_def)
  have "peek n (upcoming r) = peek n (unread (take k (rbuf r) @ drop k (rbuf r)) (incoming r))" for n
    by (simp add: upcoming_def)
  then have "peek n (upcoming r) = peek n (unread zs (upcoming r'))" for n
    unfolding zs r' upcoming_def by (simp only: peek_unread_append) simp
  with zs False assms(2) show ?thesis
    by (cases k; cases "rbuf r") auto
next
  case True
  show ?thesis
  proof (cases "bufSize \<le> k")
    case big: True
    with True assms obtain s' where c: "connRead k (incoming r) = (Got zs, s')"
      and r': "r' = r\<lparr>incoming := s'\<rparr>"
      by (auto simp: Read_def split: prod.splits)
    from connRead_Got [OF c assms(2)] True r' show ?thesis
      by (simp add: upcoming_def)
  next
    case small: False
    with True assms obtain xs s' where c: "connRead bufSize (incoming r) = (Got xs, s')"
      and zs: "zs = take k xs" and r': "r' = r\<lparr>incoming := s', rbuf := drop k xs\<rparr>"
      by (auto simp: Read_def split: prod.splits rd.splits)
    have "0 < bufSize"
      by (simp add: bufSize_def)
    from connRead_Got [OF c this] have xs: "xs \<noteq> []"
      and p: "\<And>n. peek n (incoming r) = peek n (unread xs s')"
      by simp_all
    have "peek n (upcoming r) = peek n (unread (take k xs @ drop k xs) s')" for n
      using p True by (simp add: upcoming_def)
    then have "peek n (upcoming r) = peek n (unread zs (upcoming r'))" for n
      unfolding zs r' upcoming_def by (simp only: peek_unread_append) simp
    with zs xs assms(2) show ?thesis
      by (cases k; cases xs) auto
  qed
qed

lemma Read_Failed:
  assumes "Read k r = (Failed e, r')" and "0 < k"
  shows "(e = EOF \<and> pending k r = ([], Some Eof)) \<or> (e = ConnError \<and> pending k r = ([], Some Reset))"
proof -
  from assms have e: "rbuf r = []"
    by (auto simp: Read_def split: if_splits)
  with assms obtain n s' where "connRead n (incoming r) = (Failed e, s')"
    by (auto simp: Read_def split: if_splits prod.splits rd.splits)
  from connRead_Failed [OF this] e assms(2) show ?thesis
    by (auto simp: pending_def upcoming_def peek_Eof peek_Reset)
qed

lemma Read_Blocked:
  assumes "Read k r = (Blocked, r')" and "0 < k"
  shows "pending k r = ([], Some Stall)"
proof -
  from assms have e: "rbuf r = []"
    by (auto simp: Read_def split: if_splits)
  with assms obtain n s' where "connRead n (incoming r) = (Blocked, s')"
    by (auto simp: Read_def split: if_splits prod.splits rd.splits)
  from connRead_Blocked [OF this] e assms(2) show ?thesis
    by (auto simp: pending_def upcoming_def peek_Stall)
qed

lemma ReadFull_loop_pending:
  "pending (n - length got) r = (ys, t) \<Longrightarrow>
   (t = None \<longrightarrow>
      (\<exists>r'. ReadFull_loop n got r = Some ((got @ ys, None), r') \<and>
            (\<forall>m. peek m (upcoming r) = peek m (unread ys (upcoming r'))))) \<and>
   (t = Some Eof \<longrightarrow>
      (\<exists>r'. ReadFull_loop n got r =
         Some ((got @ ys, Some (if got @ ys = [] then EOF else ErrUnexpectedEOF)), r'))) \<and>
   (t = Some Reset \<longrightarrow>
      (\<exists>r'. ReadFull_loop n got r = Some ((got @ ys, Some ConnError), r'))) \<and>
   (t = Some Stall \<longrightarrow> ReadFull_loop n got r = None)"
proof (induction n got r arbitrary: ys rule: ReadFull_loop.induct)
  case (1 n got r)
  show ?case
  proof (cases "length got < n")
    case False
    then have "n - length got = 0"
      by simp
    with "1.prems" have "ys = []" "t = None"
      by (simp_all add: pending_def)
    with False show ?thesis
      by (simp add: ReadFull_loop.simps [of n got r])
  next
    case True
    then have k: "0 < n - length got"
      by simp
    obtain x r1 where rd: "Read (n - length got) r = (x, r1)"
      by (cases "Read (n - length got) r")
    show ?thesis
    proof (cases x)
      case (Got zs)
      from Read_Got [OF rd [unfolded Got] k] have zs: "zs \<noteq> []" "length zs \<le> n - length got"
        and p: "\<And>m. peek m (upcoming r) = peek m (unread zs (upcoming r1))"
        by simp_all
      from zs(2) p have "pending (n - length got) r =
          (zs @ fst (pending (n - length got - length zs) r1),
           snd (pending (n - length got - length zs) r1))"
        by (simp add: pending_def peek_unread_ge)
      with "1.prems" obtain ys' where ys: "ys = zs @ ys'"
        and p1: "pending (n - length (got @ zs)) r1 = (ys', t)"
        by (cases "pending (n - length got - length zs) r1") auto
      note IH = "1.IH" [OF True rd [symmetric] Got p1]
      have step: "ReadFull_loop n got r = ReadFull_loop n (got @ zs) r1"
        using True rd Got by (simp add: ReadFull_loop.simps [of n got r])
      have cont: "\<forall>m. peek m (upcoming r) = peek m (unread ys (upcoming r'))"
        if "\<forall>m. peek m (upcoming r1) = peek m (unread ys' (upcoming r'))" for r'
      proof
        fix m
        have "peek m (upcoming r) = peek m (unread zs (upcoming r1))"
          by (rule p)
        also have "\<dots> = peek m (unread zs (unread ys' (upcoming r')))"
          using that by (intro peek_unread_cong) simp
        also have "\<dots> = peek m (unread ys (upcoming r'))"
          by (simp only: ys peek_unread_append)
        finally show "peek m (upcoming r) = peek m (unread ys (upcoming r'))" .
      qed
      from IH cont zs(1) show ?thesis
        unfolding step ys by (auto simp del: peek.simps)
    next
      case (Failed e)
      from Read_Failed [OF rd [unfolded Failed] k] "1.prems"
      have "(e = EOF \<and> ys = [] \<and> t = Some Eof) \<or> (e = ConnError \<and> ys = [] \<and> t = Some Reset)"
        by auto
      with True rd Failed show ?thesis
        by (auto simp: ReadFull_loop.simps [of n got r])
    next
      case Blocked
      from Read_Blocked [OF rd [unfolded Blocked] k] "1.prems" have "ys = []" "t = Some Stall"
        by simp_all
      with True rd Blocked show ?thesis
        by (simp add: ReadFull_loop.simps [of n got r])
    qed
  qed
qed

lemma ReadFull_pending:
  assumes "pending n r = (ys, t)"
  shows "(t = None \<longrightarrow>
      (\<exists>r'. ReadFull n r = Some ((ys, None), r') \<and> length ys = n \<and>
            (\<forall>m. pending (n + m) r = (ys @ fst (pending m r'), snd (pending m r'))))) \<and>
   (t = Some Eof \<longrightarrow>
      (\<exists>r'. ReadFull n r = Some ((ys, Some (if ys = [] then EOF else ErrUnexpectedEOF)), r'))) \<and>
   (t = Some Reset \<longrightarrow> (\<exists>r'. ReadFull n r = Some ((ys, Some ConnError), r'))) \<and>
   (t = Some Stall \<longrightarrow> ReadFull n r = None)"
proof -
  from assms have a: "pending (n - length ([] :: byte list)) r = (ys, t)"
    by simp
  have len: "length ys = n" if "t = None"
    using peek_None_length [of n "upcoming r"] assms that by (simp add: pending_def)
  have "pending (n + m) r = (ys @ fst (pending m r'), snd (pending m r'))"
    if "\<forall>m. peek m (upcoming r) = peek m (unread ys (upcoming r'))" and "t = None" for r' m
    using that len by (simp add: pending_def peek_unread_ge)
  with ReadFull_loop_pending [OF a] len show ?thesis
    unfolding ReadFull_def by (auto simp del: peek.simps)
qed

lemma littleEndian24_eq:
  "unat (ucast (b0::byte) OR push_bit 8 (ucast (b1::byte)) OR push_bit 16 (ucast (b2::byte)) :: uint32)
     = littleEndian24 b0 b1 b2"
proof -
  have d1: "(ucast b0 :: uint32) AND (push_bit 8 (ucast b1) OR push_bit 16 (ucast b2)) = 0"
    by (rule bit_eqI) (auto simp: bit_simps dest: bit_imp_le_length)
  have d2: "(push_bit 8 (ucast b1) :: uint32) AND push_bit 16 (ucast b2) = 0"
    by (rule bit_eqI) (auto simp: bit_simps dest: bit_imp_le_length)
  have "(ucast b0 OR push_bit 8 (ucast b1) OR push_bit 16 (ucast b2) :: uint32)
      = ucast b0 + (push_bit 8 (ucast b1) + push_bit 16 (ucast b2))"
    using d1 d2 by (simp add: disjunctive_add_eq_or or.assoc)
  also have "\<dots> = of_nat (unat b0 + 256 * unat b1 + 65536 * unat b2)"
    by (simp add: push_bit_eq_mult)
  finally have e: "(ucast b0 OR push_bit 8 (ucast b1) OR push_bit 16 (ucast b2) :: uint32)
      = of_nat (unat b0 + 256 * unat b1 + 65536 * unat b2)" .
  have "unat b0 < 256" "unat b1 < 256" "unat b2 < 256"
    using unsigned_less [of b0] unsigned_less [of b1] unsigned_less [of b2] by simp_all
  then have "unat b0 + 256 * unat b1 + 65536 * unat b2 < 2 ^ LENGTH(32)"
    by simp
  then have "unat (of_nat (unat b0 + 256 * unat b1 + 65536 * unat b2) :: uint32)
      = unat b0 + 256 * unat b1 + 65536 * unat b2"
    by (rule of_nat_inverse [OF refl])
  then show ?thesis
    unfolding e littleEndian24_def .
qed

text \<open>
  Claim C5. Let \<open>h\<close> be what the reader has before it within the next 4 bytes. If all 4 are
  there, the packet length is the 24-bit little-endian number of the first three, and with
  that many bytes \<open>b\<close> there after the header, \<open>readMySQLPacket\<close> returns \<open>b\<close> as the body
  and has consumed the 4 bytes and \<open>b\<close> and nothing else: what was before the reader is \<open>h\<close>,
  then \<open>b\<close>, then what is before it now. If the stream ends or fails within the header or
  within the body, the result is the I/O error (end of stream, unexpected end of stream
  after some bytes, or the connection's error) wrapped as a failure to read the header or
  the body, and nothing else. If the peer stalls there, the call does not return.
\<close>

theorem readMySQLPacket_header_and_body:
  assumes "pending 4 r = (h, t)"
  shows
   "(t = Some Eof \<longrightarrow>
      (\<exists>r'. readMySQLPacket r =
         Some (Err (Wrap ''mysql: failed to read packet header''
                 (IOError (if h = [] then EOF else ErrUnexpectedEOF))), r'))) \<and>
    (t = Some Reset \<longrightarrow>
      (\<exists>r'. readMySQLPacket r =
         Some (Err (Wrap ''mysql: failed to read packet header'' (IOError ConnError)), r'))) \<and>
    (t = Some Stall \<longrightarrow> readMySQLPacket r = None) \<and>
    (t = None \<longrightarrow> length h = 4 \<and>
      (\<forall>b t2. pending (4 + littleEndian24 (h ! 0) (h ! 1) (h ! 2)) r = (h @ b, t2) \<longrightarrow>
         (t2 = None \<longrightarrow>
            (\<exists>r'. readMySQLPacket r = Some (Ok b, r') \<and>
                  length b = littleEndian24 (h ! 0) (h ! 1) (h ! 2) \<and>
                  (\<forall>m. pending (4 + littleEndian24 (h ! 0) (h ! 1) (h ! 2) + m) r =
                         (h @ b @ fst (pending m r'), snd (pending m r'))))) \<and>
         (t2 = Some Eof \<longrightarrow>
            (\<exists>r'. readMySQLPacket r =
               Some (Err (Wrap ''mysql: failed to read packet body''
                       (IOError (if b = [] then EOF else ErrUnexpectedEOF))), r'))) \<and>
         (t2 = Some Reset \<longrightarrow>
            (\<exists>r'. readMySQLPacket r =
               Some (Err (Wrap ''mysql: failed to read packet body'' (IOError ConnError)), r'))) \<and>
         (t2 = Some Stall \<longrightarrow> readMySQLPacket r = None)))"
proof -
  note H = ReadFull_pending [OF assms]
  have fail: "t = Some Eof \<longrightarrow>
      (\<exists>r'. readMySQLPacket r =
         Some (Err (Wrap ''mysql: failed to read packet header''
                 (IOError (if h = [] then EOF else ErrUnexpectedEOF))), r'))"
    "t = Some Reset \<longrightarrow>
      (\<exists>r'. readMySQLPacket r =
         Some (Err (Wrap ''mysql: failed to read packet header'' (IOError ConnError)), r'))"
    "t = Some Stall \<longrightarrow> readMySQLPacket r = None"
    using H by (auto simp: readMySQLPacket_def)
  have ok: "length h = 4 \<and>
      (\<forall>b t2. pending (4 + littleEndian24 (h ! 0) (h ! 1) (h ! 2)) r = (h @ b, t2) \<longrightarrow>
         (t2 = None \<longrightarrow>
            (\<exists>r'. readMySQLPacket r = Some (Ok b, r') \<and>
                  length b = littleEndian24 (h ! 0) (h ! 1) (h ! 2) \<and>
                  (\<forall>m. pending (4 + littleEndian24 (h ! 0) (h ! 1) (h ! 2) + m) r =
                         (h @ b @ fst (pending m r'), snd (pending m r'))))) \<and>
         (t2 = Some Eof \<longrightarrow>
            (\<exists>r'. readMySQLPacket r =
               Some (Err (Wrap ''mysql: failed to read packet body''
                       (IOError (if b = [] then EOF else ErrUnexpectedEOF))), r'))) \<and>
         (t2 = Some Reset \<longrightarrow>
            (\<exists>r'. readMySQLPacket r =
               Some (Err (Wrap ''mysql: failed to read packet body'' (IOError ConnError)), r'))) \<and>
         (t2 = Some Stall \<longrightarrow> readMySQLPacket r = None))"
    if tn: "t = None"
  proof -
    let ?len = "littleEndian24 (h ! 0) (h ! 1) (h ! 2)"
    from H tn obtain r1 where r1: "ReadFull 4 r = Some ((h, None), r1)" and lh: "length h = 4"
      and c1: "\<And>m. pending (4 + m) r = (h @ fst (pending m r1), snd (pending m r1))"
      by auto
    have rd: "readMySQLPacket r =
        (case ReadFull ?len r1 of
           None \<Rightarrow> None
         | Some ((body, Some e), r) \<Rightarrow>
             Some (Err (Wrap ''mysql: failed to read packet body'' (IOError e)), r)
         | Some ((body, None), r) \<Rightarrow> Some (Ok body, r))"
      by (simp add: readMySQLPacket_def r1 littleEndian24_eq)
    have "(t2 = None \<longrightarrow>
            (\<exists>r'. readMySQLPacket r = Some (Ok b, r') \<and> length b = ?len \<and>
                  (\<forall>m. pending (4 + ?len + m) r =
                         (h @ b @ fst (pending m r'), snd (pending m r'))))) \<and>
         (t2 = Some Eof \<longrightarrow>
            (\<exists>r'. readMySQLPacket r =
               Some (Err (Wrap ''mysql: failed to read packet body''
                       (IOError (if b = [] then EOF else ErrUnexpectedEOF))), r'))) \<and>
         (t2 = Some Reset \<longrightarrow>
            (\<exists>r'. readMySQLPacket r =
               Some (Err (Wrap ''mysql: failed to read packet body'' (IOError ConnError)), r'))) \<and>
         (t2 = Some Stall \<longrightarrow> readMySQLPacket r = None)"
      if p: "pending (4 + ?len) r = (h @ b, t2)" for b t2
    proof -
      from p c1 [of ?len] have p1: "pending ?len r1 = (b, t2)"
        by (cases "pending ?len r1") simp
      note B = ReadFull_pending [OF p1]
      have cont: "pending (4 + ?len + m) r = (h @ b @ fst (pending m r'), snd (pending m r'))"
        if "\<forall>m. pending (?len + m) r1 = (b @ fst (pending m r'), snd (pending m r'))" for r' m
        using c1 [of "?len + m"] that by (simp add: add.assoc)
      from B cont show ?thesis
        unfolding rd by (auto simp del: peek.simps)
    qed
    with lh show ?thesis
      by blast
  qed
  from fail ok show ?thesis
    by blast
qed

subsection \<open>\<open>ReadString\<close> and \<open>readLine\<close>\<close>












subsection \<open>The reader on concrete input\<close>

lemma peek_Seg:
  "peek n (Seg b bs ## s) =
     (if n \<le> Suc (length bs) then (take n (b # bs), None)
      else (b # bs @ fst (peek (n - Suc (length bs)) s), snd (peek (n - Suc (length bs)) s)))"
  using peek_unread [of n "b # bs" s] by simp

lemma peek_sconst:
  "peek n (sconst Eof) = (if n = 0 then ([], None) else ([], Some Eof))"
  "peek n (sconst Reset) = (if n = 0 then ([], None) else ([], Some Reset))"
  "peek n (sconst Stall) = (if n = 0 then ([], None) else ([], Some Stall))"
  by (cases n; simp)+

lemmas look =
  pending_def upcoming_def peek_Seg peek_sconst NewReadWriter_def serving_def cutOff_def
  silent_def str_def CRLF_def banner_def


theorem readMySQLPacket_header_and_body_witness:
  "pending 4 (NewReadWriter (serving [handshakePacket 8])) = ([0x31, 0, 0, 0], None) \<and>
   littleEndian24 0x31 0 0 = 49 \<and>
   pending (4 + 49) (NewReadWriter (serving [handshakePacket 8])) =
     ([0x31, 0, 0, 0] @ handshakeBody 8, None) \<and>
   (\<exists>r'. readMySQLPacket (NewReadWriter (serving [handshakePacket 8])) =
      Some (Ok (handshakeBody 8), r')) \<and>
   length (handshakeBody 8) = 49 \<and>
   pending 4 (NewReadWriter (cutOff Eof [[0x31, 0]])) = ([0x31, 0], Some Eof) \<and>
   (\<exists>r'. readMySQLPacket (NewReadWriter (cutOff Eof [[0x31, 0]])) =
      Some (Err (Wrap ''mysql: failed to read packet header'' (IOError ErrUnexpectedEOF)), r')) \<and>
   pending 4 (NewReadWriter (cutOff Eof [[0x31, 0, 0, 0, 0x0a]])) = ([0x31, 0, 0, 0], None) \<and>
   pending (4 + 49) (NewReadWriter (cutOff Eof [[0x31, 0, 0, 0, 0x0a]])) =
     ([0x31, 0, 0, 0] @ [0x0a], Some Eof) \<and>
   (\<exists>r'. readMySQLPacket (NewReadWriter (cutOff Eof [[0x31, 0, 0, 0, 0x0a]])) =
      Some (Err (Wrap ''mysql: failed to read packet body'' (IOError ErrUnexpectedEOF)), r'))"
proof -
  have a: "pending 4 (NewReadWriter (serving [handshakePacket 8])) = ([0x31, 0, 0, 0], None)"
    "pending (4 + 49) (NewReadWriter (serving [handshakePacket 8])) =
       ([0x31, 0, 0, 0] @ handshakeBody 8, None)"
    by (simp_all add: look handshakePacket_def handshakeBody_def del: peek.simps)
  have l: "littleEndian24 0x31 0 0 = 49" "length (handshakeBody 8) = 49"
    by (simp_all add: littleEndian24_def handshakeBody_def handshakePacket_def str_def)
  have b: "pending 4 (NewReadWriter (cutOff Eof [[0x31, 0]])) = ([0x31, 0], Some Eof)"
    by (simp add: look del: peek.simps)
  have c: "pending 4 (NewReadWriter (cutOff Eof [[0x31, 0, 0, 0, 0x0a]])) = ([0x31, 0, 0, 0], None)"
    "pending (4 + 49) (NewReadWriter (cutOff Eof [[0x31, 0, 0, 0, 0x0a]])) =
       ([0x31, 0, 0, 0] @ [0x0a], Some Eof)"
    by (simp_all add: look del: peek.simps)
  have A: "\<exists>r'. readMySQLPacket (NewReadWriter (serving [handshakePacket 8])) =
      Some (Ok (handshakeBody 8), r')"
    using readMySQLPacket_header_and_body [OF a(1)] a(2) l(1) by fastforce
  have B: "\<exists>r'. readMySQLPacket (NewReadWriter (cutOff Eof [[0x31, 0]])) =
      Some (Err (Wrap ''mysql: failed to read packet header'' (IOError ErrUnexpectedEOF)), r')"
    using readMySQLPacket_header_and_body [OF b] by simp
  have C: "\<exists>r'. readMySQLPacket (NewReadWriter (cutOff Eof [[0x31, 0, 0, 0, 0x0a]])) =
      Some (Err (Wrap ''mysql: failed to read packet body'' (IOError ErrUnexpectedEOF)), r')"
    using readMySQLPacket_header_and_body [OF c(1)] c(2) l(1) by fastforce
  from a l b c A B C show ?thesis
    by blast
qed

end
